theory Spec2Isabelle
  imports Complex_Main "HOL-Library.Sublist" "HOL-Library.Multiset"
begin

section \<open>Python strings\<close>

text \<open>
  A Python \<open>str\<close> is a sequence of code points. The embedding covers the strings whose
  code points are below 256: one \<^typ>\<open>char\<close> is one code point (Latin-1). The character
  classes below are Python's \<open>str.isspace\<close>, the \<open>\<bsol>w\<close> and \<open>\<bsol>d\<close> of \<open>re\<close> on \<open>str\<close> patterns,
  and \<open>str.lower\<close>, each restricted to that range. The EN DASH (U+2013) of the header
  delimiter class lies outside the range, so no string of the model contains it.
\<close>

definition is_space :: "char \<Rightarrow> bool" where
  "is_space c = (c \<in> set [CHR 0x09, CHR 0x0A, CHR 0x0B, CHR 0x0C, CHR 0x0D,
      CHR 0x1C, CHR 0x1D, CHR 0x1E, CHR 0x1F, CHR 0x20, CHR 0x85, CHR 0xA0])"

definition is_digit :: "char \<Rightarrow> bool" where
  "is_digit c = (c \<in> set ''0123456789'')"

definition upper_chars :: string where
  "upper_chars = ''ABCDEFGHIJKLMNOPQRSTUVWXYZ'' @
     [CHR 0xC0, CHR 0xC1, CHR 0xC2, CHR 0xC3, CHR 0xC4, CHR 0xC5, CHR 0xC6, CHR 0xC7,
      CHR 0xC8, CHR 0xC9, CHR 0xCA, CHR 0xCB, CHR 0xCC, CHR 0xCD, CHR 0xCE, CHR 0xCF,
      CHR 0xD0, CHR 0xD1, CHR 0xD2, CHR 0xD3, CHR 0xD4, CHR 0xD5, CHR 0xD6, CHR 0xD8,
      CHR 0xD9, CHR 0xDA, CHR 0xDB, CHR 0xDC, CHR 0xDD, CHR 0xDE]"

definition lower_chars :: string where
  "lower_chars = ''abcdefghijklmnopqrstuvwxyz'' @
     [CHR 0xE0, CHR 0xE1, CHR 0xE2, CHR 0xE3, CHR 0xE4, CHR 0xE5, CHR 0xE6, CHR 0xE7,
      CHR 0xE8, CHR 0xE9, CHR 0xEA, CHR 0xEB, CHR 0xEC, CHR 0xED, CHR 0xEE, CHR 0xEF,
      CHR 0xF0, CHR 0xF1, CHR 0xF2, CHR 0xF3, CHR 0xF4, CHR 0xF5, CHR 0xF6, CHR 0xF8,
      CHR 0xF9, CHR 0xFA, CHR 0xFB, CHR 0xFC, CHR 0xFD, CHR 0xFE]"

text \<open>\<open>\<bsol>w\<close>: alphanumeric (\<open>str.isalnum\<close>) or the underscore.\<close>

definition is_word :: "char \<Rightarrow> bool" where
  "is_word c = (c \<in> set (''0123456789_'' @ upper_chars @ lower_chars @
     [CHR 0xAA, CHR 0xB2, CHR 0xB3, CHR 0xB5, CHR 0xB9, CHR 0xBA, CHR 0xBC, CHR 0xBD,
      CHR 0xBE, CHR 0xDF, CHR 0xFF]))"

definition lower_char :: "char \<Rightarrow> char" where
  "lower_char c = (case map_of (zip upper_chars lower_chars) c of Some d \<Rightarrow> d | None \<Rightarrow> c)"

text \<open>\<open>s.lower()\<close>\<close>

definition lower :: "string \<Rightarrow> string" where
  "lower s = map lower_char s"

text \<open>\<open>s.strip()\<close>\<close>

definition strip :: "string \<Rightarrow> string" where
  "strip s = rev (dropWhile is_space (rev (dropWhile is_space s)))"

text \<open>\<open>sub in s\<close>\<close>

fun contains :: "string \<Rightarrow> string \<Rightarrow> bool" where
  "contains sub [] = (sub = [])"
| "contains sub (c # cs) = (prefix sub (c # cs) \<or> contains sub cs)"

text \<open>\<open>any(x in s for x in xs)\<close>\<close>

definition any_in :: "string list \<Rightarrow> string \<Rightarrow> bool" where
  "any_in xs s = list_ex (\<lambda>x. contains x s) xs"

text \<open>\<open>s.startswith((p1, p2, ...))\<close>\<close>

definition startswith_any :: "string list \<Rightarrow> string \<Rightarrow> bool" where
  "startswith_any ps s = list_ex (\<lambda>p. prefix p s) ps"

text \<open>\<open>sep.join(xs)\<close>\<close>

fun join :: "string \<Rightarrow> string list \<Rightarrow> string" where
  "join sep [] = []"
| "join sep [x] = x"
| "join sep (x # y # ys) = x @ sep @ join sep (y # ys)"

text \<open>\<open>s.split(c)\<close> for a separator of one character: never an empty list.\<close>

fun split_on :: "char \<Rightarrow> string \<Rightarrow> string list" where
  "split_on sep [] = [[]]"
| "split_on sep (c # cs) =
     (if c = sep then [] # split_on sep cs
      else (case split_on sep cs of [] \<Rightarrow> [[c]] | l # ls \<Rightarrow> (c # l) # ls))"

text \<open>
  \<open>s.replace(old, new)\<close>: every occurrence, leftmost first, without overlap. For an empty
  \<open>old\<close> Python inserts \<open>new\<close> before every character and at the end.
\<close>

function str_replace :: "string \<Rightarrow> string \<Rightarrow> string \<Rightarrow> string" where
  "str_replace old new [] = (if old = [] then new else [])"
| "str_replace old new (c # cs) =
     (if old = [] then new @ c # str_replace old new cs
      else if prefix old (c # cs) then new @ str_replace old new (drop (length old) (c # cs))
      else c # str_replace old new cs)"
  by pat_completeness auto
termination
  by (relation "measure (\<lambda>(old, new, s). length s)") auto

section \<open>Regular expressions of the ETL\<close>

text \<open>\<open>TAG_RE = <[^>]+>\<close>, substituted by the empty string.\<close>

function strip_tags :: "string \<Rightarrow> string" where
  "strip_tags [] = []"
| "strip_tags (c # cs) =
     (if c = CHR ''<'' \<and> takeWhile (\<lambda>x. x \<noteq> CHR ''>'') cs \<noteq> []
          \<and> dropWhile (\<lambda>x. x \<noteq> CHR ''>'') cs \<noteq> []
      then strip_tags (tl (dropWhile (\<lambda>x. x \<noteq> CHR ''>'') cs))
      else c # strip_tags cs)"
  by pat_completeness auto
termination
proof (relation "measure length")
  fix c :: char and cs :: string
  have "length (tl (dropWhile (\<lambda>x. x \<noteq> CHR ''>'') cs)) \<le> length cs"
    using length_dropWhile_le [of "\<lambda>x. x \<noteq> CHR ''>''" cs] by simp
  then show "(tl (dropWhile (\<lambda>x. x \<noteq> CHR ''>'') cs), c # cs) \<in> measure length"
    by simp
qed auto

text \<open>\<open>WS_RE = \<bsol>s+\<close>, substituted by one space.\<close>

function collapse_ws :: "string \<Rightarrow> string" where
  "collapse_ws [] = []"
| "collapse_ws (c # cs) =
     (if is_space c then CHR '' '' # collapse_ws (dropWhile is_space cs)
      else c # collapse_ws cs)"
  by pat_completeness auto
termination
proof (relation "measure length")
  fix c :: char and cs :: string
  show "(dropWhile is_space cs, c # cs) \<in> measure length"
    by (simp add: length_dropWhile_le le_imp_less_Suc)
qed auto

definition clean :: "string \<Rightarrow> string" where
  "clean txt = strip (collapse_ws (strip_tags txt))"

text \<open>
  \<open>re.split(r'[.!?]+', para)\<close>: the pieces between the maximal runs of sentence
  terminators, empty pieces at the ends included.
\<close>

definition is_terminator :: "char \<Rightarrow> bool" where
  "is_terminator c = (c = CHR ''.'' \<or> c = CHR ''!'' \<or> c = CHR ''?'')"

function split_sentences :: "string \<Rightarrow> string list" where
  "split_sentences [] = [[]]"
| "split_sentences (c # cs) =
     (if is_terminator c then [] # split_sentences (dropWhile is_terminator cs)
      else (case split_sentences cs of [] \<Rightarrow> [[c]] | l # ls \<Rightarrow> (c # l) # ls))"
  by pat_completeness auto
termination
proof (relation "measure length")
  fix c :: char and cs :: string
  show "(dropWhile is_terminator cs, c # cs) \<in> measure length"
    by (simp add: length_dropWhile_le le_imp_less_Suc)
qed auto

text \<open>
  \<open>re.match(r'^\<bsol>d+\<bsol>.?\<bsol>s', para)\<close>: digits, an optional full stop, one whitespace
  character. The three classes are disjoint, so backtracking finds nothing the greedy
  reading misses.
\<close>

definition numbered :: "string \<Rightarrow> bool" where
  "numbered para =
     (takeWhile is_digit para \<noteq> [] \<and>
      (case dropWhile is_digit para of
         [] \<Rightarrow> False
       | c # cs \<Rightarrow>
           if c = CHR ''.'' then (case cs of [] \<Rightarrow> False | d # _ \<Rightarrow> is_space d)
           else is_space c))"

text \<open>\<open>re.sub(r'^\<bsol>d+\<bsol>.?\<bsol>s*', '', para)\<close>: without MULTILINE only the start can match.\<close>

definition strip_numbering :: "string \<Rightarrow> string" where
  "strip_numbering para =
     (if takeWhile is_digit para = [] then para
      else dropWhile is_space
        (case dropWhile is_digit para of
           [] \<Rightarrow> []
         | c # cs \<Rightarrow> if c = CHR ''.'' then cs else c # cs))"

subsection \<open>Section headers\<close>

datatype soap_section = Subjective | Objective | Assessment | Plan

definition section_name :: "soap_section \<Rightarrow> string" where
  "section_name s = (case s of Subjective \<Rightarrow> ''subjective'' | Objective \<Rightarrow> ''objective''
     | Assessment \<Rightarrow> ''assessment'' | Plan \<Rightarrow> ''plan'')"

text \<open>The order in which Python iterates over the dictionaries keyed by section.\<close>

definition section_order :: "soap_section list" where
  "section_order = [Subjective, Objective, Assessment, Plan]"

definition PLACEHOLDER :: "soap_section \<Rightarrow> string" where
  "PLACEHOLDER s = (case s of
       Subjective \<Rightarrow> ''No subjective information available.''
     | Objective \<Rightarrow> ''No objective information available.''
     | Assessment \<Rightarrow> ''No assessment information available.''
     | Plan \<Rightarrow> ''No plan information available.'')"

text \<open>
  \<open>SOAP_HDR\<close>: each pattern is \<open>\<bsol>b(alt1|alt2|...)[:\<bsol>-\<bsol>u2013]\<close>, compiled with \<open>re.I\<close>.
  The alternatives are listed in the order of the source, which is the order the regex
  engine tries them in.
\<close>

definition SOAP_HDR :: "soap_section \<Rightarrow> string list" where
  "SOAP_HDR s = (case s of
       Subjective \<Rightarrow> [''S'', ''Subj'', ''Subjective'', ''PC'', ''HPC'', ''Hx'', ''H/O'',
         ''History'', ''Chief Complaint'', ''CC'', ''PMH'', ''DH'', ''SH'', ''ICE'', ''FH'']
     | Objective \<Rightarrow> [''O'', ''Obj'', ''Objective'', ''O/E'', [CHR ''O'', CHR 0x5C, CHR ''E''],
         ''Ex'', ''Exam'', ''Examination'', ''Vitals'', ''VS'', ''Physical Exam'', ''PE'',
         ''Systemically'', ''No '', ''Feels '', ''feels '']
     | Assessment \<Rightarrow> [''A'', ''Ass'', ''Assessment'', ''Imp'', ''Impression'', ''Dx'',
         ''Diagnosis'', ''Working Dx'', ''Differential'', ''DDx'']
     | Plan \<Rightarrow> [''P'', ''Pln'', ''Plan'', ''Follow-up'', ''FU'', ''Review'', ''Discussed'',
         ''Conservative'', ''Management'', ''Mx'', ''Treatment'', ''Rx''])"

text \<open>The delimiter class \<open>D\<close>: colon or hyphen (the EN DASH is no \<^typ>\<open>char\<close>).\<close>

definition is_delim :: "char \<Rightarrow> bool" where
  "is_delim c = (c = CHR '':'' \<or> c = CHR ''-'')"

text \<open>A literal of the pattern against a prefix of the text, ignoring case.\<close>

fun ci_prefix :: "string \<Rightarrow> string \<Rightarrow> bool" where
  "ci_prefix [] s = True"
| "ci_prefix (p # ps) [] = False"
| "ci_prefix (p # ps) (c # cs) = (lower_char p = lower_char c \<and> ci_prefix ps cs)"

definition alt_matches :: "string \<Rightarrow> string \<Rightarrow> bool" where
  "alt_matches alt s =
     (ci_prefix alt s \<and> (case drop (length alt) s of [] \<Rightarrow> False | d # _ \<Rightarrow> is_delim d))"

text \<open>
  The group and the delimiter at the start of \<open>s\<close>: the first alternative that the
  delimiter follows. The result is the length of that alternative.
\<close>

definition hdr_match_at :: "string list \<Rightarrow> string \<Rightarrow> nat option" where
  "hdr_match_at alts s = map_option length (find (\<lambda>alt. alt_matches alt s) alts)"

text \<open>
  \<open>pattern.search(para)\<close> as a truth value. \<open>prev_word\<close> says whether the character
  before the position is a word character (False at the start): \<open>\<bsol>b\<close> holds where it
  differs from the character at the position.
\<close>

fun hdr_search :: "string list \<Rightarrow> bool \<Rightarrow> string \<Rightarrow> bool" where
  "hdr_search alts prev_word [] = False"
| "hdr_search alts prev_word (c # cs) =
     ((prev_word \<noteq> is_word c \<and> hdr_match_at alts (c # cs) \<noteq> None)
      \<or> hdr_search alts (is_word c) cs)"

text \<open>
  \<open>re.sub(pattern, "", para)\<close>: every match removed, leftmost first; the scan goes on
  behind the delimiter of a match.
\<close>

function hdr_sub :: "string list \<Rightarrow> bool \<Rightarrow> string \<Rightarrow> string" where
  "hdr_sub alts prev_word [] = []"
| "hdr_sub alts prev_word (c # cs) =
     (case (if prev_word \<noteq> is_word c then hdr_match_at alts (c # cs) else None) of
        Some n \<Rightarrow> hdr_sub alts (is_word ((c # cs) ! n)) (drop (Suc n) (c # cs))
      | None \<Rightarrow> c # hdr_sub alts (is_word c) cs)"
  by pat_completeness auto
termination
  by (relation "measure (\<lambda>(alts, prev_word, s). length s)") auto

text \<open>
  The loop \<open>for section, pattern in SOAP_RE.items(): if pattern.search(para): ...; break\<close>:
  the first section, in dictionary order, whose header pattern is found.
\<close>

definition header_section :: "string \<Rightarrow> soap_section option" where
  "header_section para = find (\<lambda>s. hdr_search (SOAP_HDR s) False para) section_order"

section \<open>The SOAP classifier: \<open>split_soap\<close>\<close>

text \<open>The dictionary \<open>sections\<close>: one list of accumulated pieces for each section.\<close>

record sections =
  subjective :: "string list"
  objective :: "string list"
  assessment :: "string list"
  plan :: "string list"

definition empty_sections :: sections where
  "empty_sections = \<lparr>subjective = [], objective = [], assessment = [], plan = []\<rparr>"

text \<open>\<open>sections[s]\<close>\<close>

definition sec_get :: "soap_section \<Rightarrow> sections \<Rightarrow> string list" where
  "sec_get s secs = (case s of Subjective \<Rightarrow> subjective secs | Objective \<Rightarrow> objective secs
     | Assessment \<Rightarrow> assessment secs | Plan \<Rightarrow> plan secs)"

text \<open>\<open>sections[s].append(x)\<close>\<close>

definition sec_append :: "soap_section \<Rightarrow> string \<Rightarrow> sections \<Rightarrow> sections" where
  "sec_append s x secs = (case s of
       Subjective \<Rightarrow> secs\<lparr>subjective := subjective secs @ [x]\<rparr>
     | Objective \<Rightarrow> secs\<lparr>objective := objective secs @ [x]\<rparr>
     | Assessment \<Rightarrow> secs\<lparr>assessment := assessment secs @ [x]\<rparr>
     | Plan \<Rightarrow> secs\<lparr>plan := plan secs @ [x]\<rparr>)"

subsection \<open>Paragraph segmentation\<close>

text \<open>
  The first loop of \<open>split_soap\<close>, over \<open>note.split("\<bsol>n")\<close>; the state is the pair of
  \<open>paragraphs\<close> and \<open>current_para\<close>.
\<close>

definition newline :: string where
  "newline = [CHR 0x0A]"

fun paragraph_loop :: "string list \<Rightarrow> string list \<times> string list \<Rightarrow> string list \<times> string list" where
  "paragraph_loop [] st = st"
| "paragraph_loop (l # ls) (paragraphs, current_para) =
     (if strip l = [] then
        (if current_para \<noteq> []
         then paragraph_loop ls (paragraphs @ [join newline current_para], [])
         else paragraph_loop ls (paragraphs, current_para))
      else paragraph_loop ls (paragraphs, current_para @ [strip l]))"

definition paragraphs_of :: "string \<Rightarrow> string list" where
  "paragraphs_of note =
     (case paragraph_loop (split_on (CHR 0x0A) note) ([], []) of
        (paragraphs, current_para) \<Rightarrow>
          if current_para \<noteq> [] then paragraphs @ [join newline current_para] else paragraphs)"

subsection \<open>Marker lists of the paragraph loop\<close>

definition HISTORY_MARKERS :: "string list" where
  "HISTORY_MARKERS = [''PMH:'', ''DHx:'', ''SH:'', ''ICE:'', ''FH:'', ''NKDA'']"

definition UNCERTAINTY_MARKERS :: "string list" where
  "UNCERTAINTY_MARKERS = [''need to exclude'', ''rule out'', ''? '', ''query'', ''possible'']"

definition EXAM_MARKERS :: "string list" where
  "EXAM_MARKERS = [''O/E:'', ''On examination'', ''Ex:'', ''Exam:'', ''Examination:'']"

definition SYSTEM_REVIEW_MARKERS :: "string list" where
  "SYSTEM_REVIEW_MARKERS = [''RS:'', ''GI:'', ''Neuro:'', ''LS:'', ''SE:'', ''CVS:'', ''MSK:'']"

definition SENTENCE_FINDINGS :: "string list" where
  "SENTENCE_FINDINGS = [''systemically'', ''no fevers'', ''no vomiting'', ''no sob'',
     ''on examination'', ''o/e:'', ''ex:'', ''exam:'',
     ''rs:'', ''gi:'', ''neuro:'', ''ls:'', ''se:'', ''cvs:'', ''msk:'',
     ''no chest pain'', ''no headache'', ''no visual'', ''no nausea'',
     ''no bowel'', ''no urinary'', ''no rash'', ''looks well'',
     ''appears well'', ''not in pain'', ''comfortable'',
     ''erythema'', ''swelling'', ''tenderness'']"

definition SENTENCE_MEASUREMENTS :: "string list" where
  "SENTENCE_MEASUREMENTS = [''temp'', ''pulse'', ''bp'', ''sats'', ''weight'', ''height'',
     ''bmi'', ''cm'', ''mm'', ''kg'', [CHR 0xB0]]"

definition SENTENCE_ASSESSMENT :: "string list" where
  "SENTENCE_ASSESSMENT = [''need to exclude'', ''rule out'', ''? '', ''query'',
     ''possible'', ''probable'', ''suspected'', ''likely'']"

text \<open>The section of one sentence of the first two paragraphs.\<close>

definition classify_sentence :: "string \<Rightarrow> soap_section" where
  "classify_sentence sentence =
     (if any_in SENTENCE_FINDINGS (lower sentence) then Objective
      else if any_in SENTENCE_MEASUREMENTS (lower sentence) then Objective
      else if any_in SENTENCE_ASSESSMENT (lower sentence) then Assessment
      else Subjective)"

text \<open>\<open>[s.strip() for s in re.split(r'[.!?]+', para) if s.strip()]\<close>\<close>

definition sentences_of :: "string \<Rightarrow> string list" where
  "sentences_of para = map strip (filter (\<lambda>s. strip s \<noteq> []) (split_sentences para))"

subsection \<open>One paragraph\<close>

text \<open>
  The body of \<open>for i, para in enumerate(paragraphs)\<close>. The state is the pair of
  \<open>sections\<close> and \<open>current_section\<close>; every \<open>continue\<close> is a branch that returns.
\<close>

definition process_para :: "nat \<Rightarrow> string \<Rightarrow> sections \<times> soap_section \<Rightarrow> sections \<times> soap_section" where
  "process_para i para st =
     (case st of (secs, current_section) \<Rightarrow>
        if para = [] then (secs, current_section)
        else (case header_section para of
          Some s \<Rightarrow>
            if s = Assessment \<and> CHR ''?'' \<in> set para then (sec_append s para secs, s)
            else if strip (hdr_sub (SOAP_HDR s) False para) \<noteq> []
              then (sec_append s (strip (hdr_sub (SOAP_HDR s) False para)) secs, s)
              else (secs, s)
        | None \<Rightarrow>
            if any_in HISTORY_MARKERS para then (sec_append Subjective para secs, Subjective)
            else if any_in UNCERTAINTY_MARKERS (lower para)
              then (sec_append Assessment para secs, Assessment)
            else if numbered para then (sec_append Plan (strip_numbering para) secs, Plan)
            else if i < 2
              then (foldl (\<lambda>sc sentence. sec_append (classify_sentence sentence) sentence sc)
                     secs (sentences_of para), current_section)
            else if any_in EXAM_MARKERS para then (sec_append Objective para secs, Objective)
            else if any_in SYSTEM_REVIEW_MARKERS para
              then (sec_append Objective para secs, Objective)
            else (sec_append current_section para secs, current_section)))"

fun process_all :: "nat \<Rightarrow> string list \<Rightarrow> sections \<times> soap_section \<Rightarrow> sections \<times> soap_section" where
  "process_all i [] st = st"
| "process_all i (para # paras) st = process_all (Suc i) paras (process_para i para st)"

text \<open>The state behind the paragraph loop: \<open>current_section\<close> starts as subjective.\<close>

definition accumulate :: "string \<Rightarrow> sections \<times> soap_section" where
  "accumulate note = process_all 0 (paragraphs_of note) (empty_sections, Subjective)"

subsection \<open>Assembly\<close>

text \<open>The \<open>text.replace\<close> calls, in the order of the source.\<close>

definition ABBREVIATIONS :: "(string \<times> string) list" where
  "ABBREVIATIONS = [
     (''PMH:'', ''Past Medical History:''),
     (''DHx:'', ''Drug History:''),
     (''SH:'', ''Social History:''),
     (''ICE:'', ''Ideas/Concerns/Expectations:''),
     (''FH:'', ''Family History:''),
     (''NKDA'', ''No Known Drug Allergies''),
     (''Systemically well'', ''Systemic examination:''),
     (''Systemically'', ''Systemic examination:''),
     (''Conservative mx'', ''Conservative management''),
     (''INB'', ''if not better''),
     (''sx'', ''symptoms''),
     (''Rx'', ''treatment''),
     (''abdo'', ''abdominal''),
     (''FU'', ''follow up''),
     (''FU:'', ''follow up:''),
     (''FU '', ''follow up ''),
     (''O/E:'', ''On examination:''),
     (''Ex:'', ''Examination:''),
     (''Exam:'', ''Examination:''),
     (''RS:'', ''Respiratory System:''),
     (''GI:'', ''Gastrointestinal System:''),
     (''Neuro:'', ''Neurological System:''),
     (''LS:'', ''Locomotor System:''),
     (''SE:'', ''Systemic Examination:''),
     (''CVS:'', ''Cardiovascular System:''),
     (''MSK:'', ''Musculoskeletal System:''),
     (''Hx:'', ''History:''),
     (''H/O:'', ''History of:''),
     (''Imp:'', ''Impression:''),
     (''Pln:'', ''Plan:''),
     (''DDx:'', ''Differential Diagnosis:''),
     (''Dx:'', ''Diagnosis:'')]"

definition expand :: "string \<Rightarrow> string" where
  "expand text = foldl (\<lambda>t (old, new). str_replace old new t) text ABBREVIATIONS"

text \<open>\<open>out[section] = clean(text)\<close> for every section.\<close>

definition assemble :: "sections \<Rightarrow> (string \<rightharpoonup> string)" where
  "assemble secs =
     foldl (\<lambda>out s. out(section_name s \<mapsto> clean (expand (join '' '' (sec_get s secs)))))
       Map.empty section_order"

text \<open>\<open>if presenting: out["subjective"] = (f"Presenting complaint: ..." + ...).strip()\<close>\<close>

definition with_presenting :: "string option \<Rightarrow> (string \<rightharpoonup> string) \<Rightarrow> (string \<rightharpoonup> string)" where
  "with_presenting presenting out =
     (case presenting of
        None \<Rightarrow> out
      | Some p \<Rightarrow>
          if p = [] then out
          else out(''subjective'' \<mapsto>
            strip (''Presenting complaint: '' @ p @ ''. '' @
                   (case out ''subjective'' of None \<Rightarrow> [] | Some v \<Rightarrow> v))))"

text \<open>\<open>out[k] = out.get(k) or PLACEHOLDER[k]\<close> for the four keys.\<close>

definition fill_placeholders :: "(string \<rightharpoonup> string) \<Rightarrow> (string \<rightharpoonup> string)" where
  "fill_placeholders out =
     foldl (\<lambda>m s. m(section_name s \<mapsto>
              (case m (section_name s) of
                 None \<Rightarrow> PLACEHOLDER s
               | Some v \<Rightarrow> if v = [] then PLACEHOLDER s else v)))
       out section_order"

definition split_soap :: "string \<Rightarrow> string option \<Rightarrow> (string \<rightharpoonup> string)" where
  "split_soap note presenting =
     fill_placeholders (with_presenting presenting (assemble (fst (accumulate note))))"

section \<open>The keyword classifier: \<open>classify_section\<close>\<close>

text \<open>
  The three phrase tables and the function that consults them. No other function of the
  module calls \<open>classify_section\<close>; \<open>split_soap\<close> above does not.
\<close>

definition OBJECTIVE_PATTERNS :: "string list" where
  "OBJECTIVE_PATTERNS = [''sore throat'', ''runny nose'', ''nasal congestion'', ''cough'', ''fever'',
     ''sweats'', ''appetite'', ''rash'', ''pain'', ''ache'', ''SOB'', ''breathing'',
     ''chest'', ''temp'', ''temperature'', ''pulse'', ''BP'', ''heart rate'',
     ''oxygen'', ''sats'', ''saturation'', ''burning'', ''constant'', ''gradual'',
     ''progressive'', ''headache'', ''visual'', ''palpitations'', ''nausea'',
     ''vomiting'', ''bowel'', ''urinary'', ''dysuria'', ''haematuria'', ''tender'',
     ''swollen'', ''inflamed'', ''red'', ''warm'', ''cool'', ''pale'', ''cyanotic'',
     ''jaundiced'', ''oedema'', ''edema'', ''mass'', ''lump'', ''lesion'', ''wound'',
     ''scar'', ''rash'', ''bruise'', ''swelling'', ''weight'', ''height'', ''BMI'',
     ''circumference'', ''range of motion'', ''strength'', ''reflexes'', ''sensation'',
     ''mobility'', ''gait'', ''breath sounds'', ''heart sounds'', ''bowel sounds'',
     ''pulses'', ''abdomen'', ''chest'', ''heart'', ''lungs'', ''throat'', ''ears'',
     ''eyes'', ''nose'', ''mouth'', ''neck'', ''back'', ''extremities'', ''skin'',
     ''bilateral'', ''unilateral'', ''mild'', ''moderate'', ''severe'', ''decreased'',
     ''increased'', ''normal'', ''abnormal'', ''positive'', ''negative'', ''present'',
     ''absent'', ''periumbilical'', ''severity'', ''difficulty'', ''PV bleeding'',
     ''RS:'', ''GI:'', ''Neuro:'', ''LS:'', ''SE:'', ''CVS:'', ''MSK:'',
     ''no lip swelling'', ''speaking normally'', ''no airways compromise'',
     ''no rash seen'', ''no joint swelling'', ''no neck stiffness'', ''looks well'',
     ''appears well'', ''not in pain'', ''comfortable'', ''alert'', ''oriented'',
     ''distressed'', ''uncomfortable'', ''erythema'', ''swelling'', ''tenderness'',
     ''crepitus'', ''effusion'', ''discharge'', ''exudate'', ''lesion'', ''nodule'',
     ''mass'']"

definition ASSESSMENT_PATTERNS :: "string list" where
  "ASSESSMENT_PATTERNS = [''improving'', ''settling'', ''worsening'', ''stable'', ''resolved'', ''likely'',
     ''possibly'', ''probable'', ''suspected'', ''consistent with'', ''differential'',
     ''diagnosis'', ''working diagnosis'', ''need to exclude'', ''rule out'', ''?'',
     ''query'', ''impression'', ''imp'', ''assessment'', ''appears to be'',
     ''seems to be'', ''looks like'', ''suggestive of'', ''indicative of'',
     ''compatible with'', ''secondary to'', ''due to'', ''caused by'',
     ''resulting from'', ''concerning for'', ''worried about'', ''suspicious for'',
     ''high probability of'', ''low probability of'', ''localized'', ''inflammatory'',
     ''reaction'', ''evidence of'', ''acute'', ''chronic'', ''exclude'', ''pathology'',
     ''underlying'', ''differential diagnosis'', ''working diagnosis'', ''impression'',
     ''assessment'', ''diagnosis'', ''likely'', ''possibly'', ''probably'',
     ''suspected'', ''consistent with'', ''compatible with'', ''suggestive of'',
     ''indicative of'', ''secondary to'', ''due to'', ''caused by'', ''resulting from'',
     ''concerning for'', ''worried about'', ''suspicious for'', ''high probability of'',
     ''low probability of'', ''possible'', ''probable'', ''suspected'', ''presumed'',
     ''provisional'', ''working'', ''differential'', ''confirmed'', ''established'',
     ''need to exclude'', ''rule out'', ''? '', ''query'', ''versus'',
     ''differential includes'', ''to consider'', ''impression of'']"

definition PLAN_PATTERNS :: "string list" where
  "PLAN_PATTERNS = [''plan:'', ''follow up'', ''review in'', ''discussed'', ''conservative'',
     ''prescribe'', ''prescription'', ''medication'', ''advice'', ''advise'',
     ''recommend'', ''recommendation'', ''refer'', ''referral'', ''monitor'',
     ''monitoring'', ''safety net'', ''red flags'', ''return if'', ''return to'',
     ''follow-up'', ''follow up'', ''next steps'', ''action plan'', ''management'',
     ''treatment'', ''therapy'', ''investigation'', ''test'', ''scan'', ''imaging'',
     ''bloods'', ''blood test'', ''urine'', ''stool'', ''sample'', ''specimen'',
     ''warned re'', ''red flags'', ''urgent medical review'', ''allergy testing'',
     ''ring back'', ''reassurance'', ''OTC'', ''antihistamines'', ''f2f appointment'',
     ''blood tests'', ''crp'', ''esr'', ''thick and thin blood films'', ''routine'',
     ''a/e'', ''second GP's assessment'', ''screening bloods'', ''Lyme serology'',
     ''GP'', ''regular paracetamol'', ''naproxen'', ''prescribe'', ''contact us'',
     ''straightaway'', ''severe'', ''unrelenting'', ''advised to'', ''instructed to'',
     ''recommended to'', ''to continue'', ''to start'', ''to stop'', ''to avoid'',
     ''to use'', ''to take'', ''review in'', ''return in'', ''follow up in'',
     ''check in'', ''appointment in'', ''see in'', ''reassess in'',
     ''if symptoms worsen'', ''if no improvement'', ''warning signs'', ''red flags'',
     ''when to seek help'', ''emergency signs'']"

definition EXAM_BLOCKS :: "string list" where
  "EXAM_BLOCKS = [''Systemically well'', ''Systemically'', ''O/E:'', ''On examination'',
     ''Ex:'', ''Exam:'']"

definition SYSTEM_WORDS :: "string list" where
  "SYSTEM_WORDS = [''chest'', ''heart'', ''breathing'', ''head'', ''throat'', ''ear'', ''eye'']"

definition MEASUREMENT_WORDS :: "string list" where
  "MEASUREMENT_WORDS = [''temp'', ''pulse'', ''bp'', ''sats'', ''weight'', ''height'']"

definition SEVERITY_WORDS :: "string list" where
  "SEVERITY_WORDS = [''severity'', ''/10'', ''cm'', ''mm'', ''kg'', [CHR 0xB0]]"

definition CONCERN_MARKERS :: "string list" where
  "CONCERN_MARKERS = [''/52 ago'', ''/7 ago'', ''Pt worried'', ''patient worried'',
     ''concerned about'']"

text \<open>\<open>any(pattern.lower() in para_lower for pattern in table)\<close>\<close>

definition any_lower_in :: "string list \<Rightarrow> string \<Rightarrow> bool" where
  "any_lower_in table para = list_ex (\<lambda>pattern. contains (lower pattern) (lower para)) table"

definition classify_section :: "string \<Rightarrow> soap_section \<Rightarrow> string list \<Rightarrow> soap_section" where
  "classify_section para current_section context_stack =
     (case header_section para of
        Some s \<Rightarrow> s
      | None \<Rightarrow>
          if any_lower_in PLAN_PATTERNS para then Plan
          else if any_lower_in ASSESSMENT_PATTERNS para then Assessment
          else if any_in HISTORY_MARKERS para then Subjective
          else if any_in EXAM_BLOCKS para then Objective
          else if any_lower_in SYSTEM_WORDS para
                  \<and> startswith_any [''no '', ''feels '', ''normal ''] (lower para)
            then Objective
          else if any_lower_in OBJECTIVE_PATTERNS para then
            (if any_in MEASUREMENT_WORDS (lower para) then Objective
             else if context_stack \<noteq> [] \<and> last context_stack = ''history'' then Subjective
             else if any_in SEVERITY_WORDS (lower para) then Objective
             else Objective)
          else if any_in CONCERN_MARKERS para then Subjective
          else current_section)"

section \<open>The utterance extractor\<close>

text \<open>
  An interval of a TextGrid tier. Times are finite floats that the program only compares,
  so they are rationals here.
\<close>

record interval =
  minTime :: rat
  maxTime :: rat
  mark :: string

text \<open>A tier is its name and its intervals; a TextGrid is its list of tiers.\<close>

type_synonym tier = "string \<times> interval list"

text \<open>\<open>tg.getFirst(name)\<close>: the first tier of that name, or None.\<close>

definition getFirst :: "tier list \<Rightarrow> string \<Rightarrow> tier option" where
  "getFirst tg name = find (\<lambda>t. fst t = name) tg"

text \<open>
  \<open>parse_grid\<close>. The argument \<open>loaded\<close> is the outcome of the library call
  \<open>textgrid.TextGrid.fromFile\<close>: \<open>Inl msg\<close> when it raised an exception whose text is
  \<open>msg\<close>, \<open>Inr tg\<close> when it returned the grid. The result is the list of lines printed
  and the value returned.
\<close>

definition parse_grid :: "string \<Rightarrow> string + tier list \<Rightarrow> string \<Rightarrow> string list \<times> (rat \<times> string) list" where
  "parse_grid grid_path loaded speaker =
     (case loaded of
        Inl msg \<Rightarrow> ([''ERROR: Failed to parse '' @ grid_path @ '': '' @ msg], [])
      | Inr tg \<Rightarrow>
          (case getFirst tg ''Speaker'' of
             None \<Rightarrow> ([''WARNING: No Speaker tier found in '' @ grid_path], [])
           | Some tier \<Rightarrow>
               ([], map (\<lambda>intv. (minTime intv, speaker @ '': '' @ clean (mark intv)))
                      (filter (\<lambda>intv. strip (mark intv) \<noteq> []) (snd tier)))))"

text \<open>
  The transcript of \<open>main\<close>:
  \<open>"\<bsol>n".join(u for _, u in sorted(doc_utts + pat_utts, key=lambda x: x[0])).strip()\<close>.
  Python's \<open>sorted\<close> is stable, as \<^const>\<open>sort_key\<close> is.
\<close>

definition transcript :: "(rat \<times> string) list \<Rightarrow> (rat \<times> string) list \<Rightarrow> string" where
  "transcript doc_utts pat_utts =
     strip (join newline (map snd (sort_key fst (doc_utts @ pat_utts))))"

section \<open>The dataset filter\<close>

text \<open>
  The value \<open>json.loads\<close> returns. An object is the list of its items; a key is looked up
  with \<^const>\<open>map_of\<close>.
\<close>

datatype json = JNull | JBool bool | JNum rat | JStr string | JArr "json list"
  | JObj "(string \<times> json) list"

datatype py_error = JSONDecodeError | AttributeError

text \<open>
  A line of the input file: blank (\<open>line.strip()\<close> is empty), not JSON (\<open>json.loads\<close>
  raises), or JSON.
\<close>

datatype line = Blank | Malformed | Parsed json

definition placeholders :: "(string \<times> string) list" where
  "placeholders = [
     (''subjective'', ''No subjective information available.''),
     (''objective'', ''No objective information available.''),
     (''assessment'', ''No assessment information available.''),
     (''plan'', ''No plan information available.'')]"

text \<open>\<open>record.get('expected', {})\<close>: only a dictionary has \<open>get\<close>.\<close>

definition get_expected :: "json \<Rightarrow> py_error + json" where
  "get_expected record =
     (case record of
        JObj items \<Rightarrow> (case map_of items ''expected'' of None \<Rightarrow> Inr (JObj []) | Some v \<Rightarrow> Inr v)
      | _ \<Rightarrow> Inl AttributeError)"

text \<open>
  \<open>all(expected.get(k) != placeholders[k] for k in placeholders)\<close>. The table has four
  keys, so \<open>expected.get\<close> is called at least once and raises when \<open>expected\<close> is no
  dictionary.
\<close>

definition is_complete :: "json \<Rightarrow> py_error + bool" where
  "is_complete record =
     (case get_expected record of
        Inl e \<Rightarrow> Inl e
      | Inr (JObj expected) \<Rightarrow>
          Inr (list_all (\<lambda>(k, v). map_of expected k \<noteq> Some (JStr v)) placeholders)
      | Inr _ \<Rightarrow> Inl AttributeError)"

text \<open>
  The loop of \<open>main\<close> over the lines of the input file. The state is the list of records
  written to the output file so far; the result adds the exception that ended the run,
  if one did (nothing in \<open>main\<close> catches it).
\<close>

fun filter_loop :: "line list \<Rightarrow> json list \<Rightarrow> json list \<times> py_error option" where
  "filter_loop [] written = (written, None)"
| "filter_loop (Blank # ls) written = filter_loop ls written"
| "filter_loop (Malformed # ls) written = (written, Some JSONDecodeError)"
| "filter_loop (Parsed record # ls) written =
     (case is_complete record of
        Inl e \<Rightarrow> (written, Some e)
      | Inr True \<Rightarrow> filter_loop ls (written @ [record])
      | Inr False \<Rightarrow> filter_loop ls written)"

definition filter_main :: "line list \<Rightarrow> json list \<times> py_error option" where
  "filter_main ls = filter_loop ls []"

text \<open>
  The words of the filter's contract. An entry is an object whose \<open>expected\<close> is a
  dictionary or is missing; \<open>expected_field r k\<close> is its field \<open>k\<close>, if it has one;
  \<open>records_of\<close> lists the records of a file in the order of their lines.
\<close>

definition is_entry :: "json \<Rightarrow> bool" where
  "is_entry r =
     (case r of
        JObj items \<Rightarrow>
          (case map_of items ''expected'' of None \<Rightarrow> True | Some (JObj e) \<Rightarrow> True | Some _ \<Rightarrow> False)
      | _ \<Rightarrow> False)"

definition expected_field :: "json \<Rightarrow> string \<Rightarrow> json option" where
  "expected_field r k =
     (case r of
        JObj items \<Rightarrow>
          (case map_of items ''expected'' of Some (JObj e) \<Rightarrow> map_of e k | _ \<Rightarrow> None)
      | _ \<Rightarrow> None)"

fun records_of :: "line list \<Rightarrow> json list" where
  "records_of [] = []"
| "records_of (Parsed r # ls) = r # records_of ls"
| "records_of (l # ls) = records_of ls"

text \<open>
  The piece that the header branch of the loop appends for a paragraph whose header is
  of section \<open>h\<close>: the whole paragraph for an assessment header with a question mark,
  otherwise \<open>re.sub(pattern, "", para).strip()\<close>; nothing is appended when it is empty.
\<close>

definition header_content :: "soap_section \<Rightarrow> string \<Rightarrow> string" where
  "header_content h para =
     (if h = Assessment \<and> CHR ''?'' \<in> set para then para
      else strip (hdr_sub (SOAP_HDR h) False para))"

text \<open>
  A paragraph on which \<open>split_soap\<close> finds no header and none of its markers: it is not
  empty, no header pattern matches, and it holds no history marker, no phrase of
  diagnostic uncertainty, no leading number, no examination marker and no system-review
  marker.
\<close>

definition unmarked :: "string \<Rightarrow> bool" where
  "unmarked para =
     (para \<noteq> [] \<and> header_section para = None
      \<and> \<not> any_in HISTORY_MARKERS para
      \<and> \<not> any_in UNCERTAINTY_MARKERS (lower para)
      \<and> \<not> numbered para
      \<and> \<not> any_in EXAM_MARKERS para
      \<and> \<not> any_in SYSTEM_REVIEW_MARKERS para)"

text \<open>
  A \<open>DatasetEntry\<close> as \<open>build.py\<close> writes it: the transcript and the four fields of
  \<open>expected\<close>.
\<close>

definition mk_entry :: "string \<Rightarrow> string \<Rightarrow> string \<Rightarrow> string \<Rightarrow> string \<Rightarrow> json" where
  "mk_entry transcript_text s ob a p =
     JObj [(''input'', JStr transcript_text),
           (''expected'', JObj [(''subjective'', JStr s), (''objective'', JStr ob),
                               (''assessment'', JStr a), (''plan'', JStr p)])]"

section \<open>Properties of the utterance extractor\<close>

lemma all_dropWhile_iff:
  "(\<forall>x \<in> set (dropWhile P xs). P x) \<longleftrightarrow> (\<forall>x \<in> set xs. P x)"
  by (induction xs) auto

text \<open>\<open>s.strip()\<close> is empty exactly when \<open>s\<close> is empty or whitespace only.\<close>

lemma strip_empty_iff: "strip s = [] \<longleftrightarrow> (\<forall>c \<in> set s. is_space c)"
  by (simp add: strip_def all_dropWhile_iff)

text \<open>\<open>s.strip()\<close> is \<open>s\<close> when \<open>s\<close> neither begins nor ends with whitespace.\<close>

lemma strip_id:
  assumes "s \<noteq> []" "\<not> is_space (hd s)" "\<not> is_space (last s)"
  shows "strip s = s"
proof -
  from assms have "dropWhile is_space s = s"
    by (cases s) simp_all
  moreover from assms have "dropWhile is_space (rev s) = rev s"
    by (cases "rev s") (simp_all add: hd_rev [symmetric])
  ultimately show ?thesis by (simp add: strip_def)
qed

text \<open>
  C9: \<open>parse_grid\<close> hands no exception to its caller. When the library call raises
  (the file does not parse), it prints one ERROR line and returns the empty list; when the
  grid has no tier named "Speaker", it prints one WARNING line and returns the empty list.
\<close>

theorem parse_grid_degrades:
  "parse_grid grid_path (Inl msg) speaker =
     ([''ERROR: Failed to parse '' @ grid_path @ '': '' @ msg], [])
   \<and> (getFirst tg ''Speaker'' = None \<longrightarrow>
        parse_grid grid_path (Inr tg) speaker =
          ([''WARNING: No Speaker tier found in '' @ grid_path], []))"
  by (simp add: parse_grid_def)

theorem parse_grid_degrades_witness:
  "getFirst [(''Words'', [])] ''Speaker'' = None
   \<and> parse_grid ''a.TextGrid'' (Inl ''bad header'') ''DOCTOR'' =
       ([''ERROR: Failed to parse a.TextGrid: bad header''], [])
   \<and> parse_grid ''a.TextGrid'' (Inr [(''Words'', [])]) ''DOCTOR'' =
       ([''WARNING: No Speaker tier found in a.TextGrid''], [])"
  using parse_grid_degrades [of "''a.TextGrid''" "''bad header''" "''DOCTOR''" "[(''Words'', [])]"]
  by (simp add: getFirst_def)

text \<open>
  C8, as the program has it: the transcript is the newline-joined text of all utterances
  of both speakers, sorted by start time (stably: utterances of equal time keep their
  order, the doctor's first), with leading and trailing whitespace stripped from the
  joined string, so it is the joined string itself whenever that neither begins nor ends
  with whitespace; \<open>parse_grid\<close> drops the intervals whose mark is empty or whitespace only
  before anything is sorted. For \<open>[(1.0, "doctor: hi")]\<close> and \<open>[(0.5, "patient: hello")]\<close>
  the transcript is "patient: hello", a newline, "doctor: hi".
\<close>

theorem transcript_merge:
  "transcript doc_utts pat_utts =
     strip (join newline (map snd (sort_key fst (doc_utts @ pat_utts))))
   \<and> sorted (map fst (sort_key fst (doc_utts @ pat_utts)))
   \<and> mset (sort_key fst (doc_utts @ pat_utts)) = mset doc_utts + mset pat_utts
   \<and> filter (\<lambda>x. fst x = t) (sort_key fst (doc_utts @ pat_utts)) =
       filter (\<lambda>x. fst x = t) (doc_utts @ pat_utts)
   \<and> (getFirst tg ''Speaker'' = Some (name, intvs) \<longrightarrow>
        snd (parse_grid grid_path (Inr tg) speaker) =
          map (\<lambda>intv. (minTime intv, speaker @ '': '' @ clean (mark intv)))
            (filter (\<lambda>intv. \<exists>c \<in> set (mark intv). \<not> is_space c) intvs))
   \<and> (join newline (map snd (sort_key fst (doc_utts @ pat_utts))) \<noteq> []
        \<and> \<not> is_space (hd (join newline (map snd (sort_key fst (doc_utts @ pat_utts)))))
        \<and> \<not> is_space (last (join newline (map snd (sort_key fst (doc_utts @ pat_utts))))) \<longrightarrow>
      transcript doc_utts pat_utts = join newline (map snd (sort_key fst (doc_utts @ pat_utts))))
   \<and> transcript [(1, ''doctor: hi'')] [(1 / 2, ''patient: hello'')] =
       ''patient: hello\<newline>doctor: hi''"
proof -
  have "transcript [(1, ''doctor: hi'')] [(1 / 2, ''patient: hello'')] =
       ''patient: hello\<newline>doctor: hi''"
    by (simp add: transcript_def strip_def newline_def is_space_def)
  moreover have "join newline (map snd (sort_key fst (doc_utts @ pat_utts))) \<noteq> []
        \<and> \<not> is_space (hd (join newline (map snd (sort_key fst (doc_utts @ pat_utts)))))
        \<and> \<not> is_space (last (join newline (map snd (sort_key fst (doc_utts @ pat_utts))))) \<longrightarrow>
      transcript doc_utts pat_utts = join newline (map snd (sort_key fst (doc_utts @ pat_utts)))"
    by (simp add: transcript_def strip_id)
  moreover have "getFirst tg ''Speaker'' = Some (name, intvs) \<longrightarrow>
        snd (parse_grid grid_path (Inr tg) speaker) =
          map (\<lambda>intv. (minTime intv, speaker @ '': '' @ clean (mark intv)))
            (filter (\<lambda>intv. \<exists>c \<in> set (mark intv). \<not> is_space c) intvs)"
    by (simp add: parse_grid_def strip_empty_iff)
  ultimately show ?thesis
    by (simp add: transcript_def sort_key_stable)
qed

theorem transcript_merge_witness:
  "getFirst [(''Speaker'', [\<lparr>minTime = 2, maxTime = 3, mark = ''  ''\<rparr>,
       \<lparr>minTime = 3, maxTime = 4, mark = '' <b>ok</b>  then''\<rparr>])] ''Speaker'' =
     Some (''Speaker'', [\<lparr>minTime = 2, maxTime = 3, mark = ''  ''\<rparr>,
       \<lparr>minTime = 3, maxTime = 4, mark = '' <b>ok</b>  then''\<rparr>])
   \<and> snd (parse_grid ''p.TextGrid'' (Inr [(''Speaker'', [\<lparr>minTime = 2, maxTime = 3, mark = ''  ''\<rparr>,
       \<lparr>minTime = 3, maxTime = 4, mark = '' <b>ok</b>  then''\<rparr>])]) ''PATIENT'') =
     [(3, ''PATIENT: ok then'')]
   \<and> transcript [(1, ''DOCTOR: hi''), (3, ''DOCTOR: bye'')] [(3, ''PATIENT: ok then'')] =
     ''DOCTOR: hi\<newline>DOCTOR: bye\<newline>PATIENT: ok then''"
  using transcript_merge [of "[(1, ''DOCTOR: hi''), (3, ''DOCTOR: bye'')]"
      "[(3, ''PATIENT: ok then'')]" 3
      "[(''Speaker'', [\<lparr>minTime = 2, maxTime = 3, mark = ''  ''\<rparr>,
       \<lparr>minTime = 3, maxTime = 4, mark = '' <b>ok</b>  then''\<rparr>])]"
      "''Speaker''" "[\<lparr>minTime = 2, maxTime = 3, mark = ''  ''\<rparr>,
       \<lparr>minTime = 3, maxTime = 4, mark = '' <b>ok</b>  then''\<rparr>]" "''p.TextGrid''" "''PATIENT''"]
  by (simp add: getFirst_def is_space_def clean_def strip_def newline_def)

text \<open>
  C8 as stated leaves out the final \<open>strip\<close>. An interval whose mark is only a tag, such
  as \<open><cough>\<close>, is kept (its mark is not blank) and cleans to the empty text, so the
  utterance is "DOCTOR: " with a trailing space; the transcript loses that space and is
  not the plain newline-join.
\<close>

theorem transcript_not_plain_join:
  "snd (parse_grid ''d.TextGrid''
        (Inr [(''Speaker'', [\<lparr>minTime = 0, maxTime = 1, mark = ''<cough>''\<rparr>])]) ''DOCTOR'') =
     [(0, ''DOCTOR: '')]
   \<and> transcript [(0, ''DOCTOR: '')] [] = ''DOCTOR:''
   \<and> join newline (map snd (sort_key fst ([(0 :: rat, ''DOCTOR: '')] @ []))) = ''DOCTOR: ''
   \<and> transcript [(0, ''DOCTOR: '')] [] \<noteq>
       join newline (map snd (sort_key fst ([(0 :: rat, ''DOCTOR: '')] @ [])))"
  by (simp add: parse_grid_def getFirst_def clean_def strip_def is_space_def transcript_def)

section \<open>Properties of the dataset filter\<close>

text \<open>The filter's table of placeholders is the classifier's.\<close>

lemma placeholders_sections:
  "placeholders = map (\<lambda>s. (section_name s, PLACEHOLDER s)) section_order"
  by (simp add: placeholders_def section_order_def section_name_def PLACEHOLDER_def)

lemma all_sections: "(\<forall>s. P s) \<longleftrightarrow> P Subjective \<and> P Objective \<and> P Assessment \<and> P Plan"
  by (metis soap_section.exhaust)

lemma is_complete_entry:
  "is_entry r \<Longrightarrow>
     is_complete r = Inr (\<forall>s. expected_field r (section_name s) \<noteq> Some (JStr (PLACEHOLDER s)))"
  by (auto simp: is_entry_def is_complete_def get_expected_def expected_field_def
      placeholders_sections section_order_def all_sections
      split: json.splits option.splits)

lemma filter_loop_entries:
  "Malformed \<notin> set ls \<Longrightarrow> \<forall>r. Parsed r \<in> set ls \<longrightarrow> is_entry r \<Longrightarrow>
     filter_loop ls written =
       (written @ filter (\<lambda>r. \<forall>s. expected_field r (section_name s) \<noteq> Some (JStr (PLACEHOLDER s)))
          (records_of ls), None)"
proof (induction ls arbitrary: written)
  case Nil
  show ?case by simp
next
  case (Cons l ls)
  show ?case
  proof (cases l)
    case Blank
    with Cons show ?thesis by simp
  next
    case Malformed
    with Cons.prems show ?thesis by simp
  next
    case (Parsed r)
    with Cons.prems have e: "is_entry r" by simp
    from Parsed Cons.prems have rest: "Malformed \<notin> set ls" "\<forall>r. Parsed r \<in> set ls \<longrightarrow> is_entry r"
      by simp_all
    show ?thesis
    proof (cases "\<forall>s. expected_field r (section_name s) \<noteq> Some (JStr (PLACEHOLDER s))")
      case True
      with e have "is_complete r = Inr True" by (simp add: is_complete_entry)
      with Parsed True Cons.IH [OF rest] show ?thesis by simp
    next
      case False
      with e have "is_complete r = Inr False" by (simp add: is_complete_entry)
      with Parsed False Cons.IH [OF rest] show ?thesis by simp
    qed
  qed
qed

text \<open>
  C2: for a file whose lines are blank or hold an entry, the filter writes exactly the
  entries in which no field of \<open>expected\<close> equals (as a whole string) the placeholder of
  its section, unchanged and in the order of the input, and ends without an exception;
  so the output is a subsequence of the input.
\<close>

theorem filter_keeps_complete_entries:
  "Malformed \<notin> set ls \<and> (\<forall>r. Parsed r \<in> set ls \<longrightarrow> is_entry r) \<longrightarrow>
     filter_main ls =
       (filter (\<lambda>r. \<forall>s. expected_field r (section_name s) \<noteq> Some (JStr (PLACEHOLDER s)))
          (records_of ls), None)
     \<and> subseq (fst (filter_main ls)) (records_of ls)"
  by (simp add: filter_main_def filter_loop_entries)

lemma is_entry_mk_entry: "is_entry (mk_entry t s ob a p)"
  by (simp add: is_entry_def mk_entry_def)

theorem filter_keeps_complete_entries_witness:
  "Malformed \<notin> set [Parsed (mk_entry ''t1'' ''cough'' ''BP 120/80'' ''viral'' ''rest''), Blank,
       Parsed (mk_entry ''t2'' ''cough'' ''BP 120/80'' ''viral'' ''No plan information available.''),
       Parsed (mk_entry ''t3'' ''cough'' ''BP 120/80'' ''viral'' ''No plan information available. Rest'')]
   \<and> filter_main [Parsed (mk_entry ''t1'' ''cough'' ''BP 120/80'' ''viral'' ''rest''), Blank,
       Parsed (mk_entry ''t2'' ''cough'' ''BP 120/80'' ''viral'' ''No plan information available.''),
       Parsed (mk_entry ''t3'' ''cough'' ''BP 120/80'' ''viral'' ''No plan information available. Rest'')] =
     ([mk_entry ''t1'' ''cough'' ''BP 120/80'' ''viral'' ''rest'',
       mk_entry ''t3'' ''cough'' ''BP 120/80'' ''viral'' ''No plan information available. Rest''], None)"
proof -
  let ?e1 = "mk_entry ''t1'' ''cough'' ''BP 120/80'' ''viral'' ''rest''"
  let ?e2 = "mk_entry ''t2'' ''cough'' ''BP 120/80'' ''viral'' ''No plan information available.''"
  let ?e3 = "mk_entry ''t3'' ''cough'' ''BP 120/80'' ''viral'' ''No plan information available. Rest''"
  let ?keep = "\<lambda>r. \<forall>s. expected_field r (section_name s) \<noteq> Some (JStr (PLACEHOLDER s))"
  have k1: "?keep ?e1"
    by (simp add: all_sections expected_field_def mk_entry_def section_name_def PLACEHOLDER_def)
  have k2: "\<not> ?keep ?e2"
    by (simp add: all_sections expected_field_def mk_entry_def section_name_def PLACEHOLDER_def)
  have k3: "?keep ?e3"
    by (simp add: all_sections expected_field_def mk_entry_def section_name_def PLACEHOLDER_def)
  have "filter_main [Parsed ?e1, Blank, Parsed ?e2, Parsed ?e3] =
      (filter ?keep (records_of [Parsed ?e1, Blank, Parsed ?e2, Parsed ?e3]), None)"
    using filter_keeps_complete_entries [of "[Parsed ?e1, Blank, Parsed ?e2, Parsed ?e3]"]
    by (simp add: is_entry_mk_entry)
  with k1 k2 k3 show ?thesis by simp
qed

text \<open>
  C10: a missing key never drops an entry. An entry without \<open>expected\<close> is kept; when
  \<open>expected\<close> is a dictionary, the entry is kept exactly when no field that is present
  equals its placeholder (\<open>get\<close> gives None for a missing key, and None is no string); a
  kept entry is appended to the output, a dropped one is skipped.
\<close>

theorem missing_fields_kept:
  "(map_of items ''expected'' = None \<longrightarrow> is_complete (JObj items) = Inr True)
   \<and> (map_of items ''expected'' = Some (JObj e) \<longrightarrow>
        is_complete (JObj items) =
          Inr (\<forall>s v. map_of e (section_name s) = Some v \<longrightarrow> v \<noteq> JStr (PLACEHOLDER s)))
   \<and> (is_complete r = Inr True \<longrightarrow>
        filter_loop (Parsed r # ls) written = filter_loop ls (written @ [r]))
   \<and> (is_complete r = Inr False \<longrightarrow>
        filter_loop (Parsed r # ls) written = filter_loop ls written)"
  by (auto simp: is_complete_def get_expected_def placeholders_sections section_order_def
      all_sections)

theorem missing_fields_kept_witness:
  "map_of [(''input'', JStr ''t'')] ''expected'' = None
   \<and> is_complete (JObj [(''input'', JStr ''t'')]) = Inr True
   \<and> filter_main [Parsed (JObj [(''input'', JStr ''t'')])] = ([JObj [(''input'', JStr ''t'')]], None)
   \<and> is_complete (JObj [(''expected'', JObj [(''plan'', JStr ''rest'')])]) = Inr True
   \<and> filter_main [Parsed (JObj [(''expected'', JObj [(''plan'', JStr ''rest'')])])] =
       ([JObj [(''expected'', JObj [(''plan'', JStr ''rest'')])]], None)
   \<and> is_complete (JObj [(''expected'', JObj [(''plan'', JStr ''No plan information available.'')])]) =
       Inr False"
  using missing_fields_kept [of "[(''input'', JStr ''t'')]" "[]" "JObj [(''input'', JStr ''t'')]" "[]" "[]"]
    missing_fields_kept [of "[(''expected'', JObj [(''plan'', JStr ''rest'')])]"
      "[(''plan'', JStr ''rest'')]" "JObj [(''expected'', JObj [(''plan'', JStr ''rest'')])]" "[]" "[]"]
    missing_fields_kept [of "[(''expected'', JObj [(''plan'', JStr ''No plan information available.'')])]"
      "[(''plan'', JStr ''No plan information available.'')]" "JNull" "[]" "[]"]
  by (simp add: filter_main_def all_sections section_name_def PLACEHOLDER_def)

section \<open>Header patterns and delimiters\<close>

text \<open>
  A header match ends in a delimiter. So text without a delimiter holds no header, and
  text behind the last delimiter of a paragraph changes neither what \<open>search\<close> finds nor
  what \<open>sub\<close> removes.
\<close>

lemma ci_prefix_append:
  "length alt \<le> length u \<Longrightarrow> ci_prefix alt (u @ rest) = ci_prefix alt u"
proof (induction alt arbitrary: u)
  case Nil
  show ?case by simp
next
  case (Cons p ps)
  then show ?case by (cases u) simp_all
qed

lemma alt_matches_delim:
  assumes "alt_matches alt s"
  shows "length alt < length s \<and> is_delim (s ! length alt)"
proof -
  from assms obtain d ds where d: "drop (length alt) s = d # ds" "is_delim d"
    by (auto simp: alt_matches_def split: list.splits)
  then have "length alt < length s"
    by (metis drop_all list.distinct(1) not_le)
  moreover from this d have "s ! length alt = d"
    by (metis Cons_nth_drop_Suc list.inject)
  ultimately show ?thesis using d by simp
qed

lemma alt_matches_cut:
  assumes "\<forall>c \<in> set rest. \<not> is_delim c"
  shows "alt_matches alt (u @ rest) = alt_matches alt u"
proof (cases "length alt < length u")
  case True
  then have "drop (length alt) u \<noteq> []" by simp
  then obtain d ds where "drop (length alt) u = d # ds" by (cases "drop (length alt) u") auto
  with True show ?thesis by (simp add: alt_matches_def ci_prefix_append)
next
  case False
  then have r: "\<not> alt_matches alt u" by (auto dest: alt_matches_delim)
  have "\<not> alt_matches alt (u @ rest)"
  proof
    assume "alt_matches alt (u @ rest)"
    then have "length alt < length (u @ rest)" "is_delim ((u @ rest) ! length alt)"
      by (auto dest: alt_matches_delim)
    with False have "is_delim (rest ! (length alt - length u))" "length alt - length u < length rest"
      by (auto simp: nth_append)
    with assms show False by (metis nth_mem)
  qed
  with r show ?thesis by simp
qed

lemma hdr_match_at_cut:
  "\<forall>c \<in> set rest. \<not> is_delim c \<Longrightarrow> hdr_match_at alts (u @ rest) = hdr_match_at alts u"
  by (simp add: hdr_match_at_def alt_matches_cut)

lemma hdr_match_at_delim:
  assumes "hdr_match_at alts s = Some n"
  shows "n < length s \<and> is_delim (s ! n)"
proof -
  from assms obtain alt where "alt_matches alt s" "n = length alt"
    by (auto simp: hdr_match_at_def find_Some_iff)
  then show ?thesis by (auto dest: alt_matches_delim)
qed

lemma hdr_match_at_no_delim:
  "\<forall>c \<in> set s. \<not> is_delim c \<Longrightarrow> hdr_match_at alts s = None"
  by (metis hdr_match_at_delim not_Some_eq nth_mem)

lemma hdr_search_no_delim:
  "\<forall>c \<in> set s. \<not> is_delim c \<Longrightarrow> \<not> hdr_search alts prev_word s"
  by (induction s arbitrary: prev_word) (simp_all add: hdr_match_at_no_delim)

lemma hdr_search_cut:
  assumes "\<forall>c \<in> set rest. \<not> is_delim c"
  shows "hdr_search alts prev_word (u @ rest) = hdr_search alts prev_word u"
proof (induction u arbitrary: prev_word)
  case Nil
  from assms show ?case by (simp add: hdr_search_no_delim)
next
  case (Cons c u)
  have "hdr_match_at alts (c # u @ rest) = hdr_match_at alts (c # u)"
    using hdr_match_at_cut [OF assms, of alts "c # u"] by simp
  with Cons show ?case by simp
qed

lemma header_section_cut:
  "\<forall>c \<in> set rest. \<not> is_delim c \<Longrightarrow> header_section (u @ rest) = header_section u"
  by (simp add: header_section_def hdr_search_cut)

lemma header_section_no_delim:
  "\<forall>c \<in> set s. \<not> is_delim c \<Longrightarrow> header_section s = None"
  by (simp add: header_section_def section_order_def hdr_search_no_delim)

lemma hdr_sub_no_delim:
  "\<forall>c \<in> set s. \<not> is_delim c \<Longrightarrow> hdr_sub alts prev_word s = s"
  by (induction s arbitrary: prev_word) (simp_all add: hdr_match_at_no_delim)

lemma hdr_sub_cut:
  assumes "\<forall>c \<in> set rest. \<not> is_delim c"
  shows "hdr_sub alts prev_word (u @ rest) = hdr_sub alts prev_word u @ rest"
proof (induction alts prev_word u rule: hdr_sub.induct)
  case (1 alts prev_word)
  from assms show ?case by (simp add: hdr_sub_no_delim)
next
  case (2 alts prev_word c cs)
  have m: "hdr_match_at alts (c # cs @ rest) = hdr_match_at alts (c # cs)"
    using hdr_match_at_cut [OF assms, of alts "c # cs"] by simp
  show ?case
  proof (cases "if prev_word \<noteq> is_word c then hdr_match_at alts (c # cs) else None")
    case None
    with 2 m show ?thesis by (simp split: if_splits)
  next
    case (Some n)
    then have h: "hdr_match_at alts (c # cs) = Some n" "prev_word \<noteq> is_word c"
      by (simp_all split: if_splits)
    then have n: "n < length (c # cs)" by (auto dest: hdr_match_at_delim)
    then have "(c # cs @ rest) ! n = (c # cs) ! n"
      by (metis append_Cons nth_append)
    moreover from n have "drop (Suc n) (c # cs @ rest) = drop (Suc n) (c # cs) @ rest"
      by simp
    ultimately show ?thesis using 2(2) [OF Some] Some m h by simp
  qed
qed

section \<open>Properties of the classifier's result\<close>

lemma section_name_inj: "section_name s = section_name s' \<longleftrightarrow> s = s'"
  by (cases s; cases s') (simp_all add: section_name_def)

lemma PLACEHOLDER_nonempty: "PLACEHOLDER s \<noteq> []"
  by (cases s) (simp_all add: PLACEHOLDER_def)

lemma PLACEHOLDER_form: "PLACEHOLDER s = ''No '' @ section_name s @ '' information available.''"
  by (cases s) (simp_all add: PLACEHOLDER_def section_name_def)

lemma assemble_lookup:
  "assemble secs (section_name s) = Some (clean (expand (join '' '' (sec_get s secs))))"
  by (cases s) (simp_all add: assemble_def section_order_def section_name_def)

lemma dom_assemble:
  "dom (assemble secs) = {''subjective'', ''objective'', ''assessment'', ''plan''}"
  by (auto simp: assemble_def section_order_def section_name_def)

lemma dom_with_presenting:
  "dom (with_presenting presenting out) \<subseteq> insert ''subjective'' (dom out)"
  by (auto simp: with_presenting_def split: option.splits if_splits)

lemma dom_with_presenting_sup: "dom out \<subseteq> dom (with_presenting presenting out)"
  by (auto simp: with_presenting_def split: option.splits if_splits)

lemma fill_placeholders_lookup:
  "fill_placeholders out (section_name s) =
     Some (case out (section_name s) of
             None \<Rightarrow> PLACEHOLDER s
           | Some v \<Rightarrow> if v = [] then PLACEHOLDER s else v)"
  by (cases s)
    (simp_all add: fill_placeholders_def section_order_def section_name_def split: option.splits)

lemma dom_fill_placeholders:
  "dom (fill_placeholders out) =
     dom out \<union> {''subjective'', ''objective'', ''assessment'', ''plan''}"
  by (auto simp: fill_placeholders_def section_order_def section_name_def)

lemma expand_Nil: "expand [] = []"
  by (simp add: expand_def ABBREVIATIONS_def)

lemma clean_Nil: "clean [] = []"
  by (simp add: clean_def strip_def)

lemma with_presenting_other:
  "k \<noteq> ''subjective'' \<Longrightarrow> with_presenting presenting out k = out k"
  by (simp add: with_presenting_def split: option.splits)

lemma with_presenting_falsy:
  "presenting = None \<or> presenting = Some [] \<Longrightarrow> with_presenting presenting out = out"
  by (auto simp: with_presenting_def)

text \<open>
  C1: the result of \<open>split_soap\<close> has exactly the keys subjective, objective, assessment and
  plan, and every value is a non-empty string: the value assembled for the section (with
  the presenting complaint in front of the subjective one) or, when that is empty, the
  placeholder of the section. A section for which nothing was accumulated (and, for
  subjective, no presenting complaint was given) is the placeholder, which is
  "No <section> information available." letter for letter.
\<close>

theorem split_soap_total:
  "dom (split_soap note presenting) = {''subjective'', ''objective'', ''assessment'', ''plan''}
   \<and> (\<exists>v. split_soap note presenting (section_name s) = Some v \<and> v \<noteq> [])
   \<and> split_soap note presenting (section_name s) =
       Some (case with_presenting presenting (assemble (fst (accumulate note))) (section_name s) of
               None \<Rightarrow> PLACEHOLDER s
             | Some v \<Rightarrow> if v = [] then PLACEHOLDER s else v)
   \<and> (sec_get s (fst (accumulate note)) = []
        \<and> (s \<noteq> Subjective \<or> presenting = None \<or> presenting = Some []) \<longrightarrow>
      split_soap note presenting (section_name s) = Some (PLACEHOLDER s))
   \<and> PLACEHOLDER s = ''No '' @ section_name s @ '' information available.''"
proof -
  let ?out = "with_presenting presenting (assemble (fst (accumulate note)))"
  have d: "dom (split_soap note presenting) =
      {''subjective'', ''objective'', ''assessment'', ''plan''}"
    using dom_with_presenting [of presenting "assemble (fst (accumulate note))"]
      dom_with_presenting_sup [of "assemble (fst (accumulate note))" presenting]
    by (auto simp: split_soap_def dom_fill_placeholders dom_assemble)
  have l: "split_soap note presenting (section_name s) =
       Some (case ?out (section_name s) of
               None \<Rightarrow> PLACEHOLDER s
             | Some v \<Rightarrow> if v = [] then PLACEHOLDER s else v)"
    by (simp add: split_soap_def fill_placeholders_lookup)
  have n: "\<exists>v. split_soap note presenting (section_name s) = Some v \<and> v \<noteq> []"
    unfolding l by (simp add: PLACEHOLDER_nonempty split: option.splits)
  have e: "split_soap note presenting (section_name s) = Some (PLACEHOLDER s)"
    if empty: "sec_get s (fst (accumulate note)) = []"
      and pres: "s \<noteq> Subjective \<or> presenting = None \<or> presenting = Some []"
  proof -
    have "?out (section_name s) = assemble (fst (accumulate note)) (section_name s)"
    proof (cases "s = Subjective")
      case True
      with pres show ?thesis by (simp add: with_presenting_falsy)
    next
      case False
      then have "section_name s \<noteq> ''subjective''"
        using section_name_inj [of s Subjective] by (simp add: section_name_def)
      then show ?thesis by (rule with_presenting_other)
    qed
    also have "\<dots> = Some []"
      by (simp add: assemble_lookup empty expand_Nil clean_Nil)
    finally show ?thesis unfolding l by simp
  qed
  from d l n e PLACEHOLDER_form show ?thesis by blast
qed

section \<open>Evaluation on literal strings\<close>

text \<open>
  The character functions at the printable ASCII characters and the newline, and the
  matching functions with the test that decides a step put first, so that the simplifier
  evaluates them on a literal without looking at the cases that do not apply.
\<close>

lemma lower_char_ascii:
  "lower_char (CHR 0x0A) = CHR 0x0A" "lower_char (CHR '' '') = CHR '' ''"
  "lower_char (CHR ''!'') = CHR ''!''" "lower_char (CHR 0x22) = CHR 0x22"
  "lower_char (CHR ''#'') = CHR ''#''" "lower_char (CHR ''$'') = CHR ''$''"
  "lower_char (CHR ''%'') = CHR ''%''" "lower_char (CHR ''&'') = CHR ''&''"
  "lower_char (CHR 0x27) = CHR 0x27" "lower_char (CHR ''('') = CHR ''(''"
  "lower_char (CHR '')'') = CHR '')''" "lower_char (CHR ''*'') = CHR ''*''"
  "lower_char (CHR ''+'') = CHR ''+''" "lower_char (CHR '','') = CHR '',''"
  "lower_char (CHR ''-'') = CHR ''-''" "lower_char (CHR ''.'') = CHR ''.''"
  "lower_char (CHR ''/'') = CHR ''/''" "lower_char (CHR ''0'') = CHR ''0''"
  "lower_char (CHR ''1'') = CHR ''1''" "lower_char (CHR ''2'') = CHR ''2''"
  "lower_char (CHR ''3'') = CHR ''3''" "lower_char (CHR ''4'') = CHR ''4''"
  "lower_char (CHR ''5'') = CHR ''5''" "lower_char (CHR ''6'') = CHR ''6''"
  "lower_char (CHR ''7'') = CHR ''7''" "lower_char (CHR ''8'') = CHR ''8''"
  "lower_char (CHR ''9'') = CHR ''9''" "lower_char (CHR '':'') = CHR '':''"
  "lower_char (CHR '';'') = CHR '';''" "lower_char (CHR ''<'') = CHR ''<''"
  "lower_char (CHR ''='') = CHR ''=''" "lower_char (CHR ''>'') = CHR ''>''"
  "lower_char (CHR ''?'') = CHR ''?''" "lower_char (CHR ''@'') = CHR ''@''"
  "lower_char (CHR ''A'') = CHR ''a''" "lower_char (CHR ''B'') = CHR ''b''"
  "lower_char (CHR ''C'') = CHR ''c''" "lower_char (CHR ''D'') = CHR ''d''"
  "lower_char (CHR ''E'') = CHR ''e''" "lower_char (CHR ''F'') = CHR ''f''"
  "lower_char (CHR ''G'') = CHR ''g''" "lower_char (CHR ''H'') = CHR ''h''"
  "lower_char (CHR ''I'') = CHR ''i''" "lower_char (CHR ''J'') = CHR ''j''"
  "lower_char (CHR ''K'') = CHR ''k''" "lower_char (CHR ''L'') = CHR ''l''"
  "lower_char (CHR ''M'') = CHR ''m''" "lower_char (CHR ''N'') = CHR ''n''"
  "lower_char (CHR ''O'') = CHR ''o''" "lower_char (CHR ''P'') = CHR ''p''"
  "lower_char (CHR ''Q'') = CHR ''q''" "lower_char (CHR ''R'') = CHR ''r''"
  "lower_char (CHR ''S'') = CHR ''s''" "lower_char (CHR ''T'') = CHR ''t''"
  "lower_char (CHR ''U'') = CHR ''u''" "lower_char (CHR ''V'') = CHR ''v''"
  "lower_char (CHR ''W'') = CHR ''w''" "lower_char (CHR ''X'') = CHR ''x''"
  "lower_char (CHR ''Y'') = CHR ''y''" "lower_char (CHR ''Z'') = CHR ''z''"
  "lower_char (CHR ''['') = CHR ''[''" "lower_char (CHR 0x5C) = CHR 0x5C"
  "lower_char (CHR '']'') = CHR '']''" "lower_char (CHR ''^'') = CHR ''^''"
  "lower_char (CHR ''_'') = CHR ''_''" "lower_char (CHR 0x60) = CHR 0x60"
  "lower_char (CHR ''a'') = CHR ''a''" "lower_char (CHR ''b'') = CHR ''b''"
  "lower_char (CHR ''c'') = CHR ''c''" "lower_char (CHR ''d'') = CHR ''d''"
  "lower_char (CHR ''e'') = CHR ''e''" "lower_char (CHR ''f'') = CHR ''f''"
  "lower_char (CHR ''g'') = CHR ''g''" "lower_char (CHR ''h'') = CHR ''h''"
  "lower_char (CHR ''i'') = CHR ''i''" "lower_char (CHR ''j'') = CHR ''j''"
  "lower_char (CHR ''k'') = CHR ''k''" "lower_char (CHR ''l'') = CHR ''l''"
  "lower_char (CHR ''m'') = CHR ''m''" "lower_char (CHR ''n'') = CHR ''n''"
  "lower_char (CHR ''o'') = CHR ''o''" "lower_char (CHR ''p'') = CHR ''p''"
  "lower_char (CHR ''q'') = CHR ''q''" "lower_char (CHR ''r'') = CHR ''r''"
  "lower_char (CHR ''s'') = CHR ''s''" "lower_char (CHR ''t'') = CHR ''t''"
  "lower_char (CHR ''u'') = CHR ''u''" "lower_char (CHR ''v'') = CHR ''v''"
  "lower_char (CHR ''w'') = CHR ''w''" "lower_char (CHR ''x'') = CHR ''x''"
  "lower_char (CHR ''y'') = CHR ''y''" "lower_char (CHR ''z'') = CHR ''z''"
  "lower_char (CHR ''{'') = CHR ''{''" "lower_char (CHR ''|'') = CHR ''|''"
  "lower_char (CHR ''}'') = CHR ''}''" "lower_char (CHR ''~'') = CHR ''~''"
  by (simp_all add: lower_char_def upper_chars_def lower_chars_def)

lemma is_word_ascii:
  "is_word (CHR 0x0A) = False" "is_word (CHR '' '') = False" "is_word (CHR ''!'') = False"
  "is_word (CHR 0x22) = False" "is_word (CHR ''#'') = False" "is_word (CHR ''$'') = False"
  "is_word (CHR ''%'') = False" "is_word (CHR ''&'') = False" "is_word (CHR 0x27) = False"
  "is_word (CHR ''('') = False" "is_word (CHR '')'') = False" "is_word (CHR ''*'') = False"
  "is_word (CHR ''+'') = False" "is_word (CHR '','') = False" "is_word (CHR ''-'') = False"
  "is_word (CHR ''.'') = False" "is_word (CHR ''/'') = False" "is_word (CHR ''0'') = True"
  "is_word (CHR ''1'') = True" "is_word (CHR ''2'') = True" "is_word (CHR ''3'') = True"
  "is_word (CHR ''4'') = True" "is_word (CHR ''5'') = True" "is_word (CHR ''6'') = True"
  "is_word (CHR ''7'') = True" "is_word (CHR ''8'') = True" "is_word (CHR ''9'') = True"
  "is_word (CHR '':'') = False" "is_word (CHR '';'') = False" "is_word (CHR ''<'') = False"
  "is_word (CHR ''='') = False" "is_word (CHR ''>'') = False" "is_word (CHR ''?'') = False"
  "is_word (CHR ''@'') = False" "is_word (CHR ''A'') = True" "is_word (CHR ''B'') = True"
  "is_word (CHR ''C'') = True" "is_word (CHR ''D'') = True" "is_word (CHR ''E'') = True"
  "is_word (CHR ''F'') = True" "is_word (CHR ''G'') = True" "is_word (CHR ''H'') = True"
  "is_word (CHR ''I'') = True" "is_word (CHR ''J'') = True" "is_word (CHR ''K'') = True"
  "is_word (CHR ''L'') = True" "is_word (CHR ''M'') = True" "is_word (CHR ''N'') = True"
  "is_word (CHR ''O'') = True" "is_word (CHR ''P'') = True" "is_word (CHR ''Q'') = True"
  "is_word (CHR ''R'') = True" "is_word (CHR ''S'') = True" "is_word (CHR ''T'') = True"
  "is_word (CHR ''U'') = True" "is_word (CHR ''V'') = True" "is_word (CHR ''W'') = True"
  "is_word (CHR ''X'') = True" "is_word (CHR ''Y'') = True" "is_word (CHR ''Z'') = True"
  "is_word (CHR ''['') = False" "is_word (CHR 0x5C) = False" "is_word (CHR '']'') = False"
  "is_word (CHR ''^'') = False" "is_word (CHR ''_'') = True" "is_word (CHR 0x60) = False"
  "is_word (CHR ''a'') = True" "is_word (CHR ''b'') = True" "is_word (CHR ''c'') = True"
  "is_word (CHR ''d'') = True" "is_word (CHR ''e'') = True" "is_word (CHR ''f'') = True"
  "is_word (CHR ''g'') = True" "is_word (CHR ''h'') = True" "is_word (CHR ''i'') = True"
  "is_word (CHR ''j'') = True" "is_word (CHR ''k'') = True" "is_word (CHR ''l'') = True"
  "is_word (CHR ''m'') = True" "is_word (CHR ''n'') = True" "is_word (CHR ''o'') = True"
  "is_word (CHR ''p'') = True" "is_word (CHR ''q'') = True" "is_word (CHR ''r'') = True"
  "is_word (CHR ''s'') = True" "is_word (CHR ''t'') = True" "is_word (CHR ''u'') = True"
  "is_word (CHR ''v'') = True" "is_word (CHR ''w'') = True" "is_word (CHR ''x'') = True"
  "is_word (CHR ''y'') = True" "is_word (CHR ''z'') = True" "is_word (CHR ''{'') = False"
  "is_word (CHR ''|'') = False" "is_word (CHR ''}'') = False" "is_word (CHR ''~'') = False"
  by (simp_all add: is_word_def upper_chars_def lower_chars_def)

lemma ci_prefix_eval:
  "ci_prefix (p # ps) (c # cs) = (if lower_char p = lower_char c then ci_prefix ps cs else False)"
  by simp

lemma alt_matches_eval:
  "alt_matches alt s =
     (if ci_prefix alt s then (case drop (length alt) s of [] \<Rightarrow> False | d # _ \<Rightarrow> is_delim d)
      else False)"
  by (simp add: alt_matches_def)

lemma hdr_search_eval:
  "hdr_search alts prev_word (c # cs) =
     (if prev_word = is_word c then hdr_search alts (is_word c) cs
      else if hdr_match_at alts (c # cs) = None then hdr_search alts (is_word c) cs
      else True)"
  by simp

lemma list_ex_eval: "list_ex P (x # xs) = (if P x then True else list_ex P xs)"
  by simp

lemma str_replace_absent: "c \<notin> set s \<Longrightarrow> str_replace (c # old) new s = s"
  by (induction s) auto

lemmas hdr_eval = lower_char_ascii is_word_ascii ci_prefix_eval alt_matches_eval hdr_search_eval
  hdr_match_at_def header_section_def section_order_def SOAP_HDR_def is_delim_def

lemmas hdr_del = ci_prefix.simps(3) hdr_search.simps(2)

lemmas text_eval = clean_def strip_def is_space_def expand_def ABBREVIATIONS_def
  str_replace_absent

lemmas marker_eval = any_in_def lower_def lower_char_ascii HISTORY_MARKERS_def
  UNCERTAINTY_MARKERS_def EXAM_MARKERS_def SYSTEM_REVIEW_MARKERS_def numbered_def is_digit_def

lemmas sentence_eval = sentences_of_def is_terminator_def strip_def is_space_def
  classify_sentence_def any_in_def lower_def lower_char_ascii SENTENCE_FINDINGS_def
  SENTENCE_MEASUREMENTS_def SENTENCE_ASSESSMENT_def

lemmas table_eval = any_lower_in_def lower_def lower_char_ascii PLAN_PATTERNS_def
  ASSESSMENT_PATTERNS_def OBJECTIVE_PATTERNS_def

text \<open>The lookup of one section in the result of \<open>split_soap\<close>.\<close>

lemma split_soap_lookup:
  "split_soap note presenting (section_name s) =
     Some (case with_presenting presenting (assemble (fst (accumulate note))) (section_name s) of
             None \<Rightarrow> PLACEHOLDER s
           | Some v \<Rightarrow> if v = [] then PLACEHOLDER s else v)"
  by (simp add: split_soap_def fill_placeholders_lookup)

lemma split_soap_no_presenting:
  "split_soap note None (section_name s) =
     Some (if clean (expand (join '' '' (sec_get s (fst (accumulate note))))) = []
           then PLACEHOLDER s
           else clean (expand (join '' '' (sec_get s (fst (accumulate note))))))"
  by (simp add: split_soap_lookup with_presenting_def assemble_lookup)


subsection \<open>The branches of the paragraph loop\<close>

lemma header_section_Nil: "header_section [] = None"
  by (simp add: header_section_def section_order_def)

lemma process_para_header:
  assumes "header_section para = Some s"
    and "s \<noteq> Assessment \<or> CHR ''?'' \<notin> set para"
    and "strip (hdr_sub (SOAP_HDR s) False para) = content"
  shows "process_para i para (secs, cur) =
     (if content = [] then secs else sec_append s content secs, s)"
proof -
  from assms(1) have "para \<noteq> []" by (auto simp: header_section_Nil)
  with assms show ?thesis by (auto simp: process_para_def)
qed

lemma process_para_question:
  assumes "header_section para = Some Assessment" and "CHR ''?'' \<in> set para"
  shows "process_para i para (secs, cur) = (sec_append Assessment para secs, Assessment)"
proof -
  from assms(1) have "para \<noteq> []" by (auto simp: header_section_Nil)
  with assms show ?thesis by (simp add: process_para_def)
qed

lemma process_para_fallback:
  "unmarked para \<Longrightarrow> 2 \<le> i \<Longrightarrow>
     process_para i para (secs, cur) = (sec_append cur para secs, cur)"
  by (simp add: unmarked_def process_para_def)

lemma process_para_sentences:
  "unmarked para \<Longrightarrow> i < 2 \<Longrightarrow>
     process_para i para (secs, cur) =
       (foldl (\<lambda>sc sentence. sec_append (classify_sentence sentence) sentence sc)
          secs (sentences_of para), cur)"
  by (simp add: unmarked_def process_para_def)

lemma process_para_sticky:
  "2 \<le> i \<Longrightarrow>
     fst (process_para i para (secs, cur)) = secs
     \<or> (\<exists>x. fst (process_para i para (secs, cur)) =
            sec_append (snd (process_para i para (secs, cur))) x secs)"
  by (auto simp: process_para_def split: option.splits)

lemma process_all_append:
  "process_all i (xs @ ys) st = process_all (i + length xs) ys (process_all i xs st)"
  by (induction xs arbitrary: i st) simp_all

lemma sec_get_append:
  "sec_get s (sec_append s' x secs) = (if s = s' then sec_get s secs @ [x] else sec_get s secs)"
  by (cases s; cases s') (simp_all add: sec_get_def sec_append_def)

lemma hdr_sub_subseq: "subseq (hdr_sub alts prev_word s) s"
proof (induction alts prev_word s rule: hdr_sub.induct)
  case (1 alts prev_word)
  show ?case by simp
next
  case (2 alts prev_word c cs)
  show ?case
  proof (cases "if prev_word \<noteq> is_word c then hdr_match_at alts (c # cs) else None")
    case None
    with 2(1) show ?thesis by simp
  next
    case (Some n)
    have "subseq (drop (Suc n) (c # cs)) (c # cs)"
      by (metis append_take_drop_id list_emb_append2 subseq_order.order_refl)
    with 2(2) [OF Some] Some show ?thesis
      using subseq_order.order_trans by fastforce
  qed
qed

text \<open>
  The loop only appends: what a section holds stays in front of what it holds later. So
  the piece a header paragraph adds is still in its section when the loop ends.
\<close>

lemma process_para_header_content:
  assumes "header_section para = Some h"
  shows "process_para i para (secs, cur) =
     (if header_content h para = [] then secs else sec_append h (header_content h para) secs, h)"
proof (cases "h = Assessment \<and> CHR ''?'' \<in> set para")
  case True
  then have c: "header_content h para = para" "para \<noteq> []"
    by (auto simp: header_content_def)
  from True assms have "process_para i para (secs, cur) = (sec_append h para secs, h)"
    by (simp add: process_para_question)
  with c show ?thesis by simp
next
  case False
  then have c: "header_content h para = strip (hdr_sub (SOAP_HDR h) False para)"
    by (auto simp: header_content_def)
  from False have "h \<noteq> Assessment \<or> CHR ''?'' \<notin> set para" by blast
  from process_para_header [OF assms this refl, of i secs cur] show ?thesis
    unfolding c .
qed

lemma foldl_sec_append_prefix:
  "prefix (sec_get s secs) (sec_get s (foldl (\<lambda>sc x. sec_append (f x) x sc) secs xs))"
proof (induction xs arbitrary: secs)
  case Nil
  show ?case by simp
next
  case (Cons x xs)
  have "prefix (sec_get s secs) (sec_get s (sec_append (f x) x secs))"
    by (simp add: sec_get_append)
  with Cons [of "sec_append (f x) x secs"] show ?case
    using prefix_order.order_trans by fastforce
qed

lemma process_para_prefix:
  "prefix (sec_get s (fst st)) (sec_get s (fst (process_para i para st)))"
proof (cases st)
  case (Pair secs cur)
  show ?thesis
  proof (cases "header_section para")
    case (Some h)
    with Pair show ?thesis by (simp add: process_para_header_content sec_get_append)
  next
    case None
    with Pair show ?thesis
      by (simp add: process_para_def sec_get_append foldl_sec_append_prefix)
  qed
qed

lemma process_all_prefix:
  "prefix (sec_get s (fst st)) (sec_get s (fst (process_all i paras st)))"
proof (induction paras arbitrary: i st)
  case Nil
  show ?case by simp
next
  case (Cons p ps)
  from process_para_prefix [of s st i p] Cons [of "process_para i p st" "Suc i"]
  show ?case using prefix_order.order_trans by fastforce
qed

lemma accumulate_header_member:
  assumes "paragraphs_of note = before @ para # after"
    and "header_section para = Some h"
    and "header_content h para \<noteq> []"
  shows "header_content h para \<in> set (sec_get h (fst (accumulate note)))"
proof -
  let ?st = "process_all 0 before (empty_sections, Subjective)"
  let ?st' = "process_para (length before) para ?st"
  have "?st' = process_para (length before) para (fst ?st, snd ?st)" by simp
  with assms(2,3) have "header_content h para \<in> set (sec_get h (fst ?st'))"
    by (simp only: process_para_header_content) (simp add: sec_get_append)
  moreover have "prefix (sec_get h (fst ?st'))
      (sec_get h (fst (process_all (Suc (length before)) after ?st')))"
    by (rule process_all_prefix)
  moreover have "accumulate note = process_all (Suc (length before)) after ?st'"
    by (simp add: accumulate_def assms(1) process_all_append)
  ultimately show ?thesis by (auto dest: set_mono_prefix)
qed

lemma accumulate_single_header:
  assumes "paragraphs_of note = [para]" and "header_section para = Some h"
  shows "sec_get s (fst (accumulate note)) =
     (if s = h \<and> header_content h para \<noteq> [] then [header_content h para] else [])"
proof -
  have "sec_get t empty_sections = []" for t
    by (cases t) (simp_all add: sec_get_def empty_sections_def)
  with assms show ?thesis
    by (simp add: accumulate_def process_para_header_content sec_get_append)
qed

lemma split_soap_plain:
  assumes "s \<noteq> Subjective \<or> presenting = None \<or> presenting = Some []"
  shows "split_soap note presenting (section_name s) =
     Some (if clean (expand (join '' '' (sec_get s (fst (accumulate note))))) = []
           then PLACEHOLDER s
           else clean (expand (join '' '' (sec_get s (fst (accumulate note))))))"
proof -
  have "with_presenting presenting (assemble (fst (accumulate note))) (section_name s) =
      assemble (fst (accumulate note)) (section_name s)"
  proof (cases "s = Subjective")
    case True
    with assms show ?thesis by (simp add: with_presenting_falsy)
  next
    case False
    then have "section_name s \<noteq> ''subjective''"
      using section_name_inj [of s Subjective] by (simp add: section_name_def)
    then show ?thesis by (rule with_presenting_other)
  qed
  then show ?thesis by (simp add: split_soap_lookup assemble_lookup)
qed

subsection \<open>Literal paragraphs\<close>

lemma header_para:
  assumes "\<forall>c \<in> set rest. \<not> is_delim c"
    and "header_section head = Some s"
    and "hdr_sub (SOAP_HDR s) False head = kept"
    and "s \<noteq> Assessment \<or> CHR ''?'' \<notin> set (head @ rest)"
  shows "process_para i (head @ rest) (secs, cur) =
     (if strip (kept @ rest) = [] then secs else sec_append s (strip (kept @ rest)) secs, s)"
proof -
  from assms(1,2) have h: "header_section (head @ rest) = Some s"
    by (simp add: header_section_cut)
  from assms(1,3) have "strip (hdr_sub (SOAP_HDR s) False (head @ rest)) = strip (kept @ rest)"
    by (simp add: hdr_sub_cut)
  from process_para_header [OF h assms(4) this] show ?thesis .
qed

lemma para_PMH:
  "process_para i ''PMH: hypertension'' (secs, cur) = (sec_append Subjective ''hypertension'' secs, Subjective)"
proof -
  have "process_para i (''PMH:'' @ '' hypertension'') (secs, cur) =
      (if strip ([] @ '' hypertension'') = [] then secs else sec_append Subjective (strip ([] @ '' hypertension'')) secs, Subjective)"
    by (rule header_para [where s = Subjective and kept = "[]"])
      (simp_all add: hdr_eval del: hdr_del split del: if_split)
  then show ?thesis by (simp add: strip_def is_space_def)
qed

lemma para_OE:
  "process_para i ''O/E: BP 130/80'' (secs, cur) = (sec_append Objective ''BP 130/80'' secs, Objective)"
proof -
  have "process_para i (''O/E:'' @ '' BP 130/80'') (secs, cur) =
      (if strip ([] @ '' BP 130/80'') = [] then secs else sec_append Objective (strip ([] @ '' BP 130/80'')) secs, Objective)"
    by (rule header_para [where s = Objective and kept = "[]"])
      (simp_all add: hdr_eval del: hdr_del split del: if_split)
  then show ?thesis by (simp add: strip_def is_space_def)
qed

lemma para_Imp:
  "process_para i ''Imp: likely viral'' (secs, cur) = (sec_append Assessment ''likely viral'' secs, Assessment)"
proof -
  have "process_para i (''Imp:'' @ '' likely viral'') (secs, cur) =
      (if strip ([] @ '' likely viral'') = [] then secs else sec_append Assessment (strip ([] @ '' likely viral'')) secs, Assessment)"
    by (rule header_para [where s = Assessment and kept = "[]"])
      (simp_all add: hdr_eval del: hdr_del split del: if_split)
  then show ?thesis by (simp add: strip_def is_space_def)
qed

lemma para_Plan:
  "process_para i ''Plan: rest, fluids, review in 1 week'' (secs, cur) = (sec_append Plan ''rest, fluids, review in 1 week'' secs, Plan)"
proof -
  have "process_para i (''Plan:'' @ '' rest, fluids, review in 1 week'') (secs, cur) =
      (if strip ([] @ '' rest, fluids, review in 1 week'') = [] then secs else sec_append Plan (strip ([] @ '' rest, fluids, review in 1 week'')) secs, Plan)"
    by (rule header_para [where s = Plan and kept = "[]"])
      (simp_all add: hdr_eval del: hdr_del split del: if_split)
  then show ?thesis by (simp add: strip_def is_space_def)
qed

lemma para_Plan_rest:
  "process_para i ''Plan: rest'' (secs, cur) = (sec_append Plan ''rest'' secs, Plan)"
proof -
  have "process_para i (''Plan:'' @ '' rest'') (secs, cur) =
      (if strip ([] @ '' rest'') = [] then secs else sec_append Plan (strip ([] @ '' rest'')) secs, Plan)"
    by (rule header_para [where s = Plan and kept = "[]"])
      (simp_all add: hdr_eval del: hdr_del split del: if_split)
  then show ?thesis by (simp add: strip_def is_space_def)
qed

lemma para_OE_refer:
  "process_para i ''O/E: rule out, refer'' (secs, cur) = (sec_append Objective ''rule out, refer'' secs, Objective)"
proof -
  have "process_para i (''O/E:'' @ '' rule out, refer'') (secs, cur) =
      (if strip ([] @ '' rule out, refer'') = [] then secs else sec_append Objective (strip ([] @ '' rule out, refer'')) secs, Objective)"
    by (rule header_para [where s = Objective and kept = "[]"])
      (simp_all add: hdr_eval del: hdr_del split del: if_split)
  then show ?thesis by (simp add: strip_def is_space_def)
qed

lemma para_Imp_viral:
  "process_para i ''Imp: viral'' (secs, cur) = (sec_append Assessment ''viral'' secs, Assessment)"
proof -
  have "process_para i (''Imp:'' @ '' viral'') (secs, cur) =
      (if strip ([] @ '' viral'') = [] then secs else sec_append Assessment (strip ([] @ '' viral'')) secs, Assessment)"
    by (rule header_para [where s = Assessment and kept = "[]"])
      (simp_all add: hdr_eval del: hdr_del split del: if_split)
  then show ?thesis by (simp add: strip_def is_space_def)
qed

lemma header_Imp_question: "header_section ''Imp: ?viral'' = Some Assessment"
proof -
  have "header_section (''Imp:'' @ '' ?viral'') = header_section ''Imp:''"
    by (rule header_section_cut) (simp add: is_delim_def)
  then show ?thesis by (simp add: hdr_eval del: hdr_del split del: if_split)
qed

lemma header_OE_refer: "header_section ''O/E: rule out, refer'' = Some Objective"
proof -
  have "header_section (''O/E:'' @ '' rule out, refer'') = header_section ''O/E:''"
    by (rule header_section_cut) (simp add: is_delim_def)
  then show ?thesis by (simp add: hdr_eval del: hdr_del split del: if_split)
qed

lemma header_Imp_viral: "header_section ''Imp: viral'' = Some Assessment"
proof -
  have "header_section (''Imp:'' @ '' viral'') = header_section ''Imp:''"
    by (rule header_section_cut) (simp add: is_delim_def)
  then show ?thesis by (simp add: hdr_eval del: hdr_del split del: if_split)
qed

lemma unmarked_ok: "unmarked ''ok''"
  by (simp add: unmarked_def header_section_no_delim is_delim_def marker_eval split del: if_split)

lemma unmarked_advice: "unmarked ''advice''"
  by (simp add: unmarked_def header_section_no_delim is_delim_def marker_eval split del: if_split)

lemma para_ok_first:
  "i < 2 \<Longrightarrow> process_para i ''ok'' (secs, cur) = (sec_append Subjective ''ok'' secs, cur)"
proof -
  have "sentences_of ''ok'' = [''ok'']" "classify_sentence ''ok'' = Subjective"
    by (simp_all add: sentence_eval split del: if_split)
  then show "i < 2 \<Longrightarrow> ?thesis"
    by (simp add: process_para_sentences [OF unmarked_ok])
qed

lemma ok_no_phrases:
  "\<not> any_lower_in PLAN_PATTERNS ''ok''" "\<not> any_lower_in ASSESSMENT_PATTERNS ''ok''"
  "\<not> any_lower_in OBJECTIVE_PATTERNS ''ok''"
  by (simp_all add: table_eval split del: if_split)

lemma advice_plan_phrase: "any_lower_in PLAN_PATTERNS ''advice''"
  by (simp add: table_eval list_ex_eval del: list_ex_Cons_iff split del: if_split)

lemma refer_phrases:
  "any_in UNCERTAINTY_MARKERS (lower ''O/E: rule out, refer'')"
  "any_lower_in PLAN_PATTERNS ''O/E: rule out, refer''"
  "any_lower_in ASSESSMENT_PATTERNS ''O/E: rule out, refer''"
  by (simp_all add: table_eval marker_eval list_ex_eval del: list_ex_Cons_iff split del: if_split)

lemma text_hypertension: "clean (expand ''hypertension'') = ''hypertension''"
  by (simp add: text_eval split del: if_split)

lemma text_BP: "clean (expand ''BP 130/80'') = ''BP 130/80''"
  by (simp add: text_eval split del: if_split)

lemma text_likely_viral: "clean (expand ''likely viral'') = ''likely viral''"
  by (simp add: text_eval split del: if_split)

lemma text_rest_fluids:
  "clean (expand ''rest, fluids, review in 1 week'') = ''rest, fluids, review in 1 week''"
  by (simp add: text_eval split del: if_split)

lemma text_ok: "clean (expand ''ok'') = ''ok''"
  by (simp add: text_eval split del: if_split)

lemma text_rest: "clean (expand ''rest'') = ''rest''"
  by (simp add: text_eval split del: if_split)

lemma text_ok_ok_advice: "clean (expand ''ok ok advice'') = ''ok ok advice''"
  by (simp add: text_eval split del: if_split)

lemmas para_eval = paragraphs_of_def strip_def is_space_def newline_def

lemma scenario_paragraphs:
  "paragraphs_of ''PMH: hypertension\<newline>\<newline>O/E: BP 130/80\<newline>\<newline>Imp: likely viral\<newline>\<newline>Plan: rest, fluids, review in 1 week'' =
   [''PMH: hypertension'', ''O/E: BP 130/80'', ''Imp: likely viral'',
    ''Plan: rest, fluids, review in 1 week'']"
  by (simp add: para_eval split del: if_split)

lemma scenario_accumulate:
  "fst (accumulate ''PMH: hypertension\<newline>\<newline>O/E: BP 130/80\<newline>\<newline>Imp: likely viral\<newline>\<newline>Plan: rest, fluids, review in 1 week'') =
     \<lparr>subjective = [''hypertension''], objective = [''BP 130/80''],
      assessment = [''likely viral''], plan = [''rest, fluids, review in 1 week'']\<rparr>"
  by (simp add: accumulate_def scenario_paragraphs para_PMH para_OE para_Imp para_Plan
      sec_append_def empty_sections_def)

lemma scenario_result:
  "split_soap ''PMH: hypertension\<newline>\<newline>O/E: BP 130/80\<newline>\<newline>Imp: likely viral\<newline>\<newline>Plan: rest, fluids, review in 1 week'' None (section_name s) =
     Some (case s of Subjective \<Rightarrow> ''hypertension'' | Objective \<Rightarrow> ''BP 130/80''
           | Assessment \<Rightarrow> ''likely viral'' | Plan \<Rightarrow> ''rest, fluids, review in 1 week'')"
  by (cases s)
    (simp_all add: split_soap_no_presenting scenario_accumulate sec_get_def
      text_hypertension text_BP text_likely_viral text_rest_fluids)

lemma note_Imp_question: "paragraphs_of ''Imp: ?viral'' = [''Imp: ?viral'']"
  by (simp add: para_eval split del: if_split)

lemma note_Imp_viral: "paragraphs_of ''Imp: viral'' = [''Imp: viral'']"
  by (simp add: para_eval split del: if_split)

lemma note_OE_refer: "paragraphs_of ''O/E: rule out, refer'' = [''O/E: rule out, refer'']"
  by (simp add: para_eval split del: if_split)

lemma text_Imp_question: "clean (expand ''Imp: ?viral'') = ''Impression: ?viral''"
  by (simp add: text_eval split del: if_split)

lemma text_viral: "clean (expand ''viral'') = ''viral''"
  by (simp add: text_eval split del: if_split)

lemma text_rule_out_refer: "clean (expand ''rule out, refer'') = ''rule out, refer''"
  by (simp add: text_eval split del: if_split)

lemma record_OE_refer:
  "fst (accumulate ''O/E: rule out, refer'') =
     \<lparr>subjective = [], objective = [''rule out, refer''], assessment = [], plan = []\<rparr>"
  by (simp add: accumulate_def note_OE_refer para_OE_refer sec_append_def empty_sections_def)

lemma record_Imp_viral:
  "fst (accumulate ''Imp: viral'') =
     \<lparr>subjective = [], objective = [], assessment = [''viral''], plan = []\<rparr>"
  by (simp add: accumulate_def note_Imp_viral para_Imp_viral sec_append_def empty_sections_def)

section \<open>Properties of the paragraph loop\<close>

text \<open>
  C5, as the program has it: from the third paragraph of a note on (index 2 and above), a
  paragraph with no header match and no marker match is appended to \<open>current_section\<close>,
  the section set by the last paragraph that a header or marker classified (subjective
  before any did), and leaves \<open>current_section\<close> as it is; this holds for the state the
  loop has reached after any paragraphs \<open>before\<close> of a note. Each of the first two
  paragraphs (index 0 and 1) is instead split into sentences that go to objective,
  assessment or subjective one by one, whatever \<open>current_section\<close> is. A paragraph of
  index 2 or above leaves \<open>current_section\<close> at the one section it added to, if it
  added anything: so the sticky section is the section of the paragraph before, where
  that one has index 2 or above and added content.
\<close>

theorem sticky_fallback:
  "(unmarked para \<and> 2 \<le> i \<longrightarrow>
      process_para i para (secs, cur) = (sec_append cur para secs, cur))
   \<and> (paragraphs_of note = before @ para # rest \<and> 2 \<le> length before \<and> unmarked para \<longrightarrow>
        process_all 0 (before @ [para]) (empty_sections, Subjective) =
          (sec_append (snd (process_all 0 before (empty_sections, Subjective))) para
             (fst (process_all 0 before (empty_sections, Subjective))),
           snd (process_all 0 before (empty_sections, Subjective))))
   \<and> (unmarked para \<and> i < 2 \<longrightarrow>
        process_para i para (secs, cur) =
          (foldl (\<lambda>sc sentence. sec_append (classify_sentence sentence) sentence sc)
             secs (sentences_of para), cur))
   \<and> (2 \<le> i \<longrightarrow>
        fst (process_para i previous (secs, cur)) = secs
        \<or> (\<exists>x. fst (process_para i previous (secs, cur)) =
               sec_append (snd (process_para i previous (secs, cur))) x secs))"
proof -
  have "process_all 0 (before @ [para]) st =
      (sec_append (snd (process_all 0 before st)) para (fst (process_all 0 before st)),
       snd (process_all 0 before st))"
    if "2 \<le> length before" "unmarked para" for st
    using that process_para_fallback [of para "length before"
        "fst (process_all 0 before st)" "snd (process_all 0 before st)"]
    by (simp add: process_all_append)
  then show ?thesis
    by (simp add: process_para_fallback process_para_sentences process_para_sticky)
qed

text \<open>
  C6: a paragraph in which a header pattern is found is classified by that header (the
  first section, in the order subjective, objective, assessment, plan, whose pattern is
  found), whatever phrases of the keyword tables or markers it also holds:
  \<open>current_section\<close> becomes the header's section, the list of that section gains
  exactly the paragraph's piece (the whole paragraph, or the paragraph without its header
  matches; nothing when that is empty), the lists of the other sections stay as they are,
  and \<open>classify_section\<close> returns the header's section too. In any note the piece is
  among the pieces of the header's section when the loop ends, and in a note of that one
  paragraph it is the only piece of any section. Whenever some header pattern is found,
  there is such a section.
\<close>

theorem header_priority:
  "(header_section para = Some h \<longrightarrow>
      snd (process_para i para (secs, cur)) = h
      \<and> (\<forall>s. s \<noteq> h \<longrightarrow> sec_get s (fst (process_para i para (secs, cur))) = sec_get s secs)
      \<and> sec_get h (fst (process_para i para (secs, cur))) =
          sec_get h secs @ (if header_content h para = [] then [] else [header_content h para])
      \<and> classify_section para cur context_stack = h
      \<and> (paragraphs_of note = before @ para # after \<and> header_content h para \<noteq> [] \<longrightarrow>
           header_content h para \<in> set (sec_get h (fst (accumulate note))))
      \<and> (paragraphs_of note = [para] \<longrightarrow>
           (\<forall>s. sec_get s (fst (accumulate note)) =
              (if s = h \<and> header_content h para \<noteq> [] then [header_content h para] else []))))
   \<and> (hdr_search (SOAP_HDR s) False para \<longrightarrow>
        (\<exists>h. header_section para = Some h \<and> hdr_search (SOAP_HDR h) False para))"
proof -
  have b: "\<exists>h. header_section para = Some h \<and> hdr_search (SOAP_HDR h) False para"
    if "hdr_search (SOAP_HDR s) False para"
  proof -
    from that have "s \<in> set section_order \<and> hdr_search (SOAP_HDR s) False para"
      by (cases s) (simp_all add: section_order_def)
    then obtain h where "find (\<lambda>s. hdr_search (SOAP_HDR s) False para) section_order = Some h"
      by (metis find_None_iff not_Some_eq)
    then show ?thesis by (auto simp: header_section_def find_Some_iff)
  qed
  show ?thesis
    by (auto simp: process_para_header_content sec_get_append classify_section_def
        accumulate_header_member accumulate_single_header dest: b)
qed

text \<open>
  C7: a paragraph whose header is an assessment header and that holds a question mark is
  appended whole to the assessment list, header token and delimiter included; it is
  among the pieces of assessment when the loop ends, and for a note of that one
  paragraph the assessment of the record is the whole paragraph after abbreviation
  expansion and cleaning. A paragraph with a header and no question mark adds to its
  section the paragraph with the matches of the header's pattern removed and the
  remainder stripped (nothing when that is empty), and for a note of that one paragraph
  the record holds that remainder after expansion and cleaning. The removal only deletes
  characters, and text behind the last delimiter is left as it is.
\<close>

theorem question_mark_keeps_header:
  "(header_section para = Some Assessment \<and> CHR ''?'' \<in> set para \<longrightarrow>
      snd (process_para i para (secs, cur)) = Assessment
      \<and> sec_get Assessment (fst (process_para i para (secs, cur))) =
          sec_get Assessment secs @ [para]
      \<and> (paragraphs_of note = before @ para # after \<longrightarrow>
           para \<in> set (sec_get Assessment (fst (accumulate note))))
      \<and> (paragraphs_of note = [para] \<longrightarrow>
           split_soap note presenting ''assessment'' =
             Some (if clean (expand para) = [] then PLACEHOLDER Assessment
                   else clean (expand para))))
   \<and> (header_section para = Some s \<and> CHR ''?'' \<notin> set para \<longrightarrow>
        snd (process_para i para (secs, cur)) = s
        \<and> sec_get s (fst (process_para i para (secs, cur))) =
            sec_get s secs @
              (if strip (hdr_sub (SOAP_HDR s) False para) = [] then []
               else [strip (hdr_sub (SOAP_HDR s) False para)])
        \<and> (paragraphs_of note = before @ para # after
             \<and> strip (hdr_sub (SOAP_HDR s) False para) \<noteq> [] \<longrightarrow>
             strip (hdr_sub (SOAP_HDR s) False para) \<in> set (sec_get s (fst (accumulate note))))
        \<and> (paragraphs_of note = [para] \<and> (s \<noteq> Subjective \<or> presenting = None) \<longrightarrow>
             split_soap note presenting (section_name s) =
               Some (if clean (expand (strip (hdr_sub (SOAP_HDR s) False para))) = []
                     then PLACEHOLDER s
                     else clean (expand (strip (hdr_sub (SOAP_HDR s) False para))))))
   \<and> subseq (hdr_sub (SOAP_HDR s) False para) para
   \<and> ((\<forall>c \<in> set rest. \<not> is_delim c) \<longrightarrow>
        hdr_sub (SOAP_HDR s) False (head @ rest) = hdr_sub (SOAP_HDR s) False head @ rest)"
proof -
  have q: "snd (process_para i para (secs, cur)) = Assessment
      \<and> sec_get Assessment (fst (process_para i para (secs, cur))) =
          sec_get Assessment secs @ [para]
      \<and> (paragraphs_of note = before @ para # after \<longrightarrow>
           para \<in> set (sec_get Assessment (fst (accumulate note))))
      \<and> (paragraphs_of note = [para] \<longrightarrow>
           split_soap note presenting ''assessment'' =
             Some (if clean (expand para) = [] then PLACEHOLDER Assessment
                   else clean (expand para)))"
    if h: "header_section para = Some Assessment" and m: "CHR ''?'' \<in> set para"
  proof -
    from m have c: "header_content Assessment para = para" "para \<noteq> []"
      by (auto simp: header_content_def)
    have "split_soap note presenting (section_name Assessment) =
        Some (if clean (expand para) = [] then PLACEHOLDER Assessment else clean (expand para))"
      if "paragraphs_of note = [para]"
      using accumulate_single_header [OF that h, of Assessment] c
      by (simp add: split_soap_plain)
    with h c accumulate_header_member [of "note" before para after Assessment] show ?thesis
      by (simp add: process_para_header_content sec_get_append section_name_def)
  qed
  have n: "snd (process_para i para (secs, cur)) = s
        \<and> sec_get s (fst (process_para i para (secs, cur))) =
            sec_get s secs @
              (if strip (hdr_sub (SOAP_HDR s) False para) = [] then []
               else [strip (hdr_sub (SOAP_HDR s) False para)])
        \<and> (paragraphs_of note = before @ para # after
             \<and> strip (hdr_sub (SOAP_HDR s) False para) \<noteq> [] \<longrightarrow>
             strip (hdr_sub (SOAP_HDR s) False para) \<in> set (sec_get s (fst (accumulate note))))
        \<and> (paragraphs_of note = [para] \<and> (s \<noteq> Subjective \<or> presenting = None) \<longrightarrow>
             split_soap note presenting (section_name s) =
               Some (if clean (expand (strip (hdr_sub (SOAP_HDR s) False para))) = []
                     then PLACEHOLDER s
                     else clean (expand (strip (hdr_sub (SOAP_HDR s) False para)))))"
    if h: "header_section para = Some s" and m: "CHR ''?'' \<notin> set para"
  proof -
    from m have c: "header_content s para = strip (hdr_sub (SOAP_HDR s) False para)"
      by (simp add: header_content_def)
    have "split_soap note presenting (section_name s) =
        Some (if clean (expand (strip (hdr_sub (SOAP_HDR s) False para))) = []
              then PLACEHOLDER s
              else clean (expand (strip (hdr_sub (SOAP_HDR s) False para))))"
      if "paragraphs_of note = [para]" "s \<noteq> Subjective \<or> presenting = None"
      using accumulate_single_header [OF that(1) h, of s] c that(2)
      by (auto simp: split_soap_plain expand_Nil clean_Nil)
    with h c accumulate_header_member [of "note" before para after s] show ?thesis
      by (simp add: process_para_header_content sec_get_append)
  qed
  from q n show ?thesis
    by (simp add: hdr_sub_subseq hdr_sub_cut)
qed

text \<open>
  C4, as the program has it: the phrase tables are consulted by \<open>classify_section\<close>, which
  \<open>split_soap\<close> does not call. When no header pattern is found, \<open>classify_section\<close> returns
  plan if a plan phrase occurs; else assessment if an assessment phrase occurs; else,
  when no history marker occurs and the context stack does not end in "history",
  objective if an objective phrase occurs; and \<open>current_section\<close> when no table, marker
  or concern phrase matches. The fallback of \<open>split_soap\<close> itself (index 2 and above, no
  header, no marker) appends the paragraph to \<open>current_section\<close> whatever the tables hold.
\<close>

theorem classify_section_order:
  "header_section para = None \<longrightarrow>
     (any_lower_in PLAN_PATTERNS para \<longrightarrow> classify_section para cur context_stack = Plan)
     \<and> (\<not> any_lower_in PLAN_PATTERNS para \<and> any_lower_in ASSESSMENT_PATTERNS para \<longrightarrow>
          classify_section para cur context_stack = Assessment)
     \<and> (\<not> any_lower_in PLAN_PATTERNS para \<and> \<not> any_lower_in ASSESSMENT_PATTERNS para
          \<and> \<not> any_in HISTORY_MARKERS para \<and> any_lower_in OBJECTIVE_PATTERNS para
          \<and> (context_stack = [] \<or> last context_stack \<noteq> ''history'') \<longrightarrow>
          classify_section para cur context_stack = Objective)
     \<and> (\<not> any_lower_in PLAN_PATTERNS para \<and> \<not> any_lower_in ASSESSMENT_PATTERNS para
          \<and> \<not> any_in HISTORY_MARKERS para \<and> \<not> any_in EXAM_BLOCKS para
          \<and> \<not> any_lower_in SYSTEM_WORDS para \<and> \<not> any_lower_in OBJECTIVE_PATTERNS para
          \<and> \<not> any_in CONCERN_MARKERS para \<longrightarrow>
          classify_section para cur context_stack = cur)
     \<and> (unmarked para \<and> 2 \<le> i \<longrightarrow>
          process_para i para (secs, cur) = (sec_append cur para secs, cur))"
  by (auto simp: classify_section_def process_para_fallback)

section \<open>Scenarios\<close>

subsection \<open>A note of one short paragraph\<close>

lemma ok_accumulate:
  "fst (accumulate ''ok'') = \<lparr>subjective = [''ok''], objective = [], assessment = [], plan = []\<rparr>"
proof -
  have "paragraphs_of ''ok'' = [''ok'']"
    by (simp add: para_eval split del: if_split)
  then show ?thesis
    by (simp add: accumulate_def para_ok_first sec_append_def empty_sections_def)
qed

text \<open>The note "ok": nothing is accumulated for plan, which is its placeholder.\<close>

theorem split_soap_total_witness:
  "sec_get Plan (fst (accumulate ''ok'')) = []
   \<and> dom (split_soap ''ok'' None) = {''subjective'', ''objective'', ''assessment'', ''plan''}
   \<and> split_soap ''ok'' None ''plan'' = Some ''No plan information available.''
   \<and> split_soap ''ok'' None ''subjective'' = Some ''ok''"
proof -
  have s: "split_soap ''ok'' None ''subjective'' = Some ''ok''"
    using split_soap_no_presenting [of "''ok''" Subjective]
    by (simp add: ok_accumulate sec_get_def text_ok section_name_def)
  have e: "sec_get Plan (fst (accumulate ''ok'')) = []"
    by (simp add: ok_accumulate sec_get_def)
  have d: "dom (split_soap ''ok'' None) = {''subjective'', ''objective'', ''assessment'', ''plan''}"
    using split_soap_total [of "''ok''" None Plan] by (rule conjunct1)
  have "sec_get Plan (fst (accumulate ''ok'')) = []
        \<and> (Plan \<noteq> Subjective \<or> (None :: string option) = None \<or> None = Some [])"
    using e by simp
  with split_soap_total [of "''ok''" None Plan, THEN conjunct2, THEN conjunct2, THEN conjunct2,
      THEN conjunct1]
  have "split_soap ''ok'' None (section_name Plan) = Some (PLACEHOLDER Plan)"
    by (rule mp)
  with s e d show ?thesis by (simp add: section_name_def PLACEHOLDER_def)
qed

subsection \<open>The four-paragraph note\<close>

text \<open>
  C3, as the program has it: for the note of the four paragraphs "PMH: hypertension",
  "O/E: BP 130/80", "Imp: likely viral" and "Plan: rest, fluids, review in 1 week",
  separated by blank lines and without a presenting complaint, \<open>split_soap\<close> returns
  subjective "hypertension", objective "BP 130/80", assessment "likely viral" and plan
  "rest, fluids, review in 1 week": every header token is removed with its delimiter.
\<close>

theorem scenario_split:
  "split_soap ''PMH: hypertension\<newline>\<newline>O/E: BP 130/80\<newline>\<newline>Imp: likely viral\<newline>\<newline>Plan: rest, fluids, review in 1 week'' None ''subjective'' = Some ''hypertension''
   \<and> split_soap ''PMH: hypertension\<newline>\<newline>O/E: BP 130/80\<newline>\<newline>Imp: likely viral\<newline>\<newline>Plan: rest, fluids, review in 1 week'' None ''objective'' = Some ''BP 130/80''
   \<and> split_soap ''PMH: hypertension\<newline>\<newline>O/E: BP 130/80\<newline>\<newline>Imp: likely viral\<newline>\<newline>Plan: rest, fluids, review in 1 week'' None ''assessment'' = Some ''likely viral''
   \<and> split_soap ''PMH: hypertension\<newline>\<newline>O/E: BP 130/80\<newline>\<newline>Imp: likely viral\<newline>\<newline>Plan: rest, fluids, review in 1 week'' None ''plan'' = Some ''rest, fluids, review in 1 week''"
  using scenario_result [of Subjective] scenario_result [of Objective]
    scenario_result [of Assessment] scenario_result [of Plan]
  by (simp add: section_name_def)

text \<open>
  C3 as stated has the headers expanded. The header match is removed before the
  abbreviations are expanded, so neither "Past Medical History:" nor "Impression:"
  occurs in the result.
\<close>

theorem scenario_headers_not_expanded:
  "split_soap ''PMH: hypertension\<newline>\<newline>O/E: BP 130/80\<newline>\<newline>Imp: likely viral\<newline>\<newline>Plan: rest, fluids, review in 1 week'' None ''subjective'' = Some ''hypertension''
   \<and> \<not> contains ''Past Medical History:'' ''hypertension''
   \<and> split_soap ''PMH: hypertension\<newline>\<newline>O/E: BP 130/80\<newline>\<newline>Imp: likely viral\<newline>\<newline>Plan: rest, fluids, review in 1 week'' None ''assessment'' = Some ''likely viral''
   \<and> \<not> contains ''Impression:'' ''likely viral''"
  using scenario_result [of Subjective] scenario_result [of Assessment]
  by (simp add: section_name_def)

subsection \<open>A plan phrase in the fallback\<close>

lemma note4_paragraphs: "paragraphs_of ''ok\<newline>\<newline>ok\<newline>\<newline>advice'' = [''ok'', ''ok'', ''advice'']"
  by (simp add: para_eval split del: if_split)

lemma note4_accumulate:
  "fst (accumulate ''ok\<newline>\<newline>ok\<newline>\<newline>advice'') =
     \<lparr>subjective = [''ok'', ''ok'', ''advice''], objective = [], assessment = [], plan = []\<rparr>"
  by (simp add: accumulate_def note4_paragraphs para_ok_first
      process_para_fallback [OF unmarked_advice] sec_append_def empty_sections_def)

text \<open>
  C4 as stated has \<open>split_soap\<close> look a paragraph up in the phrase tables before it
  falls back. The third paragraph of this note, "advice", holds the plan phrase "advice"
  and no header; \<open>classify_section\<close> would return plan, yet \<open>split_soap\<close> appends it to
  the current section, subjective, and plan stays empty.
\<close>

theorem fallback_ignores_plan_phrases:
  "paragraphs_of ''ok\<newline>\<newline>ok\<newline>\<newline>advice'' = [''ok'', ''ok'', ''advice'']
   \<and> header_section ''advice'' = None
   \<and> any_lower_in PLAN_PATTERNS ''advice''
   \<and> classify_section ''advice'' Subjective [] = Plan
   \<and> split_soap ''ok\<newline>\<newline>ok\<newline>\<newline>advice'' None ''subjective'' = Some ''ok ok advice''
   \<and> split_soap ''ok\<newline>\<newline>ok\<newline>\<newline>advice'' None ''plan'' = Some ''No plan information available.''"
proof -
  have h: "header_section ''advice'' = None"
    using unmarked_advice by (simp add: unmarked_def)
  have "split_soap ''ok\<newline>\<newline>ok\<newline>\<newline>advice'' None (section_name Subjective) = Some ''ok ok advice''"
    "split_soap ''ok\<newline>\<newline>ok\<newline>\<newline>advice'' None (section_name Plan) = Some (PLACEHOLDER Plan)"
    by (simp_all add: split_soap_no_presenting note4_accumulate sec_get_def text_ok_ok_advice
        expand_Nil clean_Nil)
  with h show ?thesis
    by (simp add: note4_paragraphs advice_plan_phrase classify_section_def section_name_def
        PLACEHOLDER_def)
qed

theorem classify_section_order_witness:
  "header_section ''advice'' = None
   \<and> any_lower_in PLAN_PATTERNS ''advice''
   \<and> classify_section ''advice'' Subjective [] = Plan
   \<and> unmarked ''advice''
   \<and> process_para 2 ''advice'' (empty_sections, Subjective) =
       (sec_append Subjective ''advice'' empty_sections, Subjective)"
proof -
  have h: "header_section ''advice'' = None"
    using unmarked_advice by (simp add: unmarked_def)
  from classify_section_order [of "''advice''" Subjective "[]" 2 empty_sections] h
  show ?thesis by (simp add: advice_plan_phrase unmarked_advice)
qed

subsection \<open>An unmarked second paragraph\<close>

lemma note5_paragraphs: "paragraphs_of ''Plan: rest\<newline>\<newline>ok'' = [''Plan: rest'', ''ok'']"
  by (simp add: para_eval split del: if_split)

text \<open>
  C5 as stated has every paragraph with no header and no marker follow the section of
  the paragraph before it. In this note the first paragraph is a plan header, and the
  second, "ok", matches no header, no marker and no phrase of the tables; as one of the
  first two paragraphs it is split into sentences, and "ok" goes to subjective, not to
  plan.
\<close>

theorem second_paragraph_not_sticky:
  "paragraphs_of ''Plan: rest\<newline>\<newline>ok'' = [''Plan: rest'', ''ok'']
   \<and> unmarked ''ok''
   \<and> \<not> any_lower_in PLAN_PATTERNS ''ok'' \<and> \<not> any_lower_in ASSESSMENT_PATTERNS ''ok''
   \<and> \<not> any_lower_in OBJECTIVE_PATTERNS ''ok''
   \<and> process_para 0 ''Plan: rest'' (empty_sections, Subjective) =
       (sec_append Plan ''rest'' empty_sections, Plan)
   \<and> process_para 1 ''ok'' (sec_append Plan ''rest'' empty_sections, Plan) =
       (sec_append Subjective ''ok'' (sec_append Plan ''rest'' empty_sections), Plan)
   \<and> process_para 1 ''ok'' (sec_append Plan ''rest'' empty_sections, Plan) \<noteq>
       (sec_append Plan ''ok'' (sec_append Plan ''rest'' empty_sections), Plan)
   \<and> split_soap ''Plan: rest\<newline>\<newline>ok'' None ''subjective'' = Some ''ok''
   \<and> split_soap ''Plan: rest\<newline>\<newline>ok'' None ''plan'' = Some ''rest''"
proof -
  have acc: "fst (accumulate ''Plan: rest\<newline>\<newline>ok'') =
      \<lparr>subjective = [''ok''], objective = [], assessment = [], plan = [''rest'']\<rparr>"
    by (simp add: accumulate_def note5_paragraphs para_Plan_rest para_ok_first sec_append_def
        empty_sections_def)
  have "split_soap ''Plan: rest\<newline>\<newline>ok'' None (section_name Subjective) = Some ''ok''"
    "split_soap ''Plan: rest\<newline>\<newline>ok'' None (section_name Plan) = Some ''rest''"
    by (simp_all add: split_soap_no_presenting acc sec_get_def text_ok text_rest)
  then show ?thesis
    by (simp add: note5_paragraphs unmarked_ok ok_no_phrases para_Plan_rest para_ok_first
        section_name_def sec_append_def empty_sections_def)
qed

lemma note5w_paragraphs: "paragraphs_of ''ok\<newline>\<newline>ok\<newline>\<newline>Plan: rest\<newline>\<newline>ok'' = [''ok'', ''ok'', ''Plan: rest''] @ ''ok'' # []"
  by (simp add: para_eval split del: if_split)

text \<open>From the third paragraph on, the same paragraph does follow the plan header.\<close>

theorem sticky_fallback_witness:
  "unmarked ''ok''
   \<and> process_para 2 ''ok'' (sec_append Plan ''rest'' empty_sections, Plan) =
       (sec_append Plan ''ok'' (sec_append Plan ''rest'' empty_sections), Plan)
   \<and> paragraphs_of ''ok\<newline>\<newline>ok\<newline>\<newline>Plan: rest\<newline>\<newline>ok'' = [''ok'', ''ok'', ''Plan: rest''] @ ''ok'' # []
   \<and> process_all 0 ([''ok'', ''ok'', ''Plan: rest''] @ [''ok'']) (empty_sections, Subjective) =
       (\<lparr>subjective = [''ok'', ''ok''], objective = [], assessment = [],
         plan = [''rest'', ''ok'']\<rparr>, Plan)"
proof -
  let ?B = "[''ok'', ''ok'', ''Plan: rest'']"
  let ?I = "(empty_sections, Subjective)"
  let ?S = "sec_append Plan ''rest'' empty_sections"
  note t = sticky_fallback [of "''ok''" 2 ?S Plan "''ok\<newline>\<newline>ok\<newline>\<newline>Plan: rest\<newline>\<newline>ok''" ?B "[]"]
  have b: "process_all 0 ?B ?I =
      (\<lparr>subjective = [''ok'', ''ok''], objective = [], assessment = [], plan = [''rest'']\<rparr>, Plan)"
    by (simp add: para_ok_first para_Plan_rest sec_append_def empty_sections_def)
  have "unmarked ''ok'' \<and> (2 :: nat) \<le> 2"
    using unmarked_ok by simp
  with t [THEN conjunct1]
  have step: "process_para 2 ''ok'' (?S, Plan) = (sec_append Plan ''ok'' ?S, Plan)"
    by (rule mp)
  have "2 \<le> length ?B" by simp
  with note5w_paragraphs unmarked_ok
  have pre: "paragraphs_of ''ok\<newline>\<newline>ok\<newline>\<newline>Plan: rest\<newline>\<newline>ok'' = ?B @ ''ok'' # [] \<and> 2 \<le> length ?B \<and> unmarked ''ok''"
    by (intro conjI)
  with t [THEN conjunct2, THEN conjunct1]
  have "process_all 0 (?B @ [''ok'']) ?I =
      (sec_append (snd (process_all 0 ?B ?I)) ''ok'' (fst (process_all 0 ?B ?I)),
       snd (process_all 0 ?B ?I))"
    by (rule mp)
  then have n: "process_all 0 (?B @ [''ok'']) ?I =
      (\<lparr>subjective = [''ok'', ''ok''], objective = [], assessment = [],
        plan = [''rest'', ''ok'']\<rparr>, Plan)"
    unfolding b by (simp only: fst_conv snd_conv sec_append_def soap_section.case
        sections.simps append.simps)
  from unmarked_ok step note5w_paragraphs n show ?thesis by (intro conjI)
qed

subsection \<open>Headers with keywords and question marks\<close>

text \<open>
  The paragraph "O/E: rule out, refer" has an objective header, the uncertainty marker
  "rule out" and phrases of the plan and assessment tables; its text goes to objective
  alone.
\<close>

theorem header_priority_witness:
  "header_section ''O/E: rule out, refer'' = Some Objective
   \<and> any_in UNCERTAINTY_MARKERS (lower ''O/E: rule out, refer'')
   \<and> any_lower_in PLAN_PATTERNS ''O/E: rule out, refer''
   \<and> any_lower_in ASSESSMENT_PATTERNS ''O/E: rule out, refer''
   \<and> process_para 0 ''O/E: rule out, refer'' (empty_sections, Subjective) =
       (\<lparr>subjective = [], objective = [''rule out, refer''], assessment = [], plan = []\<rparr>,
        Objective)
   \<and> classify_section ''O/E: rule out, refer'' Subjective [] = Objective
   \<and> split_soap ''O/E: rule out, refer'' None ''objective'' = Some ''rule out, refer''
   \<and> split_soap ''O/E: rule out, refer'' None ''assessment'' =
       Some ''No assessment information available.''
   \<and> split_soap ''O/E: rule out, refer'' None ''plan'' = Some ''No plan information available.''"
proof -
  let ?P = "''O/E: rule out, refer''"
  note t = header_priority [of ?P Objective 0 empty_sections Subjective "[]" ?P "[]" "[]" Objective]
  from t [THEN conjunct1] header_OE_refer
  have "snd (process_para 0 ?P (empty_sections, Subjective)) = Objective
      \<and> (\<forall>s. s \<noteq> Objective \<longrightarrow>
            sec_get s (fst (process_para 0 ?P (empty_sections, Subjective))) =
              sec_get s empty_sections)
      \<and> sec_get Objective (fst (process_para 0 ?P (empty_sections, Subjective))) =
          sec_get Objective empty_sections @
            (if header_content Objective ?P = [] then [] else [header_content Objective ?P])
      \<and> classify_section ?P Subjective [] = Objective
      \<and> (paragraphs_of ?P = [] @ ?P # [] \<and> header_content Objective ?P \<noteq> [] \<longrightarrow>
           header_content Objective ?P \<in> set (sec_get Objective (fst (accumulate ?P))))
      \<and> (paragraphs_of ?P = [?P] \<longrightarrow>
           (\<forall>s. sec_get s (fst (accumulate ?P)) =
              (if s = Objective \<and> header_content Objective ?P \<noteq> []
               then [header_content Objective ?P] else [])))"
    by (rule mp)
  then have c: "classify_section ?P Subjective [] = Objective"
    by (elim conjE)
  have p: "process_para 0 ?P (empty_sections, Subjective) =
      (\<lparr>subjective = [], objective = [''rule out, refer''], assessment = [], plan = []\<rparr>,
       Objective)"
    by (simp add: para_OE_refer sec_append_def empty_sections_def)
  have r: "split_soap ?P None (section_name Objective) = Some ''rule out, refer''"
    "split_soap ?P None (section_name Assessment) = Some (PLACEHOLDER Assessment)"
    "split_soap ?P None (section_name Plan) = Some (PLACEHOLDER Plan)"
    by (simp_all add: split_soap_no_presenting record_OE_refer sec_get_def text_rule_out_refer
        expand_Nil clean_Nil)
  from header_OE_refer refer_phrases p c r show ?thesis
    by (simp add: section_name_def PLACEHOLDER_def)
qed

text \<open>
  "Imp: ?viral" is kept with its header, which the abbreviation table then expands in
  the record; "Imp: viral" loses its header.
\<close>

theorem question_mark_keeps_header_witness:
  "header_section ''Imp: ?viral'' = Some Assessment
   \<and> CHR ''?'' \<in> set ''Imp: ?viral''
   \<and> process_para 0 ''Imp: ?viral'' (empty_sections, Subjective) =
       (\<lparr>subjective = [], objective = [], assessment = [''Imp: ?viral''], plan = []\<rparr>,
        Assessment)
   \<and> split_soap ''Imp: ?viral'' None ''assessment'' = Some ''Impression: ?viral''
   \<and> header_section ''Imp: viral'' = Some Assessment
   \<and> CHR ''?'' \<notin> set ''Imp: viral''
   \<and> process_para 0 ''Imp: viral'' (empty_sections, Subjective) =
       (\<lparr>subjective = [], objective = [], assessment = [''viral''], plan = []\<rparr>, Assessment)
   \<and> split_soap ''Imp: viral'' None ''assessment'' = Some ''viral''"
proof -
  let ?Q = "''Imp: ?viral''"
  have q: "CHR ''?'' \<in> set ?Q" by simp
  have n: "CHR ''?'' \<notin> set ''Imp: viral''" by simp
  from header_Imp_question q
  have hq: "header_section ?Q = Some Assessment \<and> CHR ''?'' \<in> set ?Q"
    by (rule conjI)
  note t = question_mark_keeps_header [of ?Q 0 empty_sections Subjective ?Q "[]" "[]" None
      Assessment "[]" "[]"]
  from t [THEN conjunct1] hq
  have "snd (process_para 0 ?Q (empty_sections, Subjective)) = Assessment
      \<and> sec_get Assessment (fst (process_para 0 ?Q (empty_sections, Subjective))) =
          sec_get Assessment empty_sections @ [?Q]
      \<and> (paragraphs_of ?Q = [] @ ?Q # [] \<longrightarrow>
           ?Q \<in> set (sec_get Assessment (fst (accumulate ?Q))))
      \<and> (paragraphs_of ?Q = [?Q] \<longrightarrow>
           split_soap ?Q None ''assessment'' =
             Some (if clean (expand ?Q) = [] then PLACEHOLDER Assessment
                   else clean (expand ?Q)))"
    by (rule mp)
  then have "paragraphs_of ?Q = [?Q] \<longrightarrow>
      split_soap ?Q None ''assessment'' =
        Some (if clean (expand ?Q) = [] then PLACEHOLDER Assessment else clean (expand ?Q))"
    by (elim conjE)
  from this note_Imp_question
  have "split_soap ?Q None ''assessment'' =
      Some (if clean (expand ?Q) = [] then PLACEHOLDER Assessment else clean (expand ?Q))"
    by (rule mp)
  then have rq: "split_soap ?Q None ''assessment'' = Some ''Impression: ?viral''"
    by (simp add: text_Imp_question)
  have pq: "process_para 0 ?Q (empty_sections, Subjective) =
      (\<lparr>subjective = [], objective = [], assessment = [?Q], plan = []\<rparr>, Assessment)"
    using process_para_question [OF header_Imp_question q, of 0 empty_sections Subjective]
    by (simp add: sec_append_def empty_sections_def)
  have pn: "process_para 0 ''Imp: viral'' (empty_sections, Subjective) =
      (\<lparr>subjective = [], objective = [], assessment = [''viral''], plan = []\<rparr>, Assessment)"
    by (simp add: para_Imp_viral sec_append_def empty_sections_def)
  have "split_soap ''Imp: viral'' None (section_name Assessment) = Some ''viral''"
    by (simp add: split_soap_no_presenting record_Imp_viral sec_get_def text_viral)
  then have rn: "split_soap ''Imp: viral'' None ''assessment'' = Some ''viral''"
    by (simp add: section_name_def)
  from header_Imp_question q pq rq header_Imp_viral n pn rn show ?thesis
    by (intro conjI)
qed

end
